theory Spec2Isabelle
  imports Complex_Main
begin

section \<open>JavaScript numbers, idealised\<close>

text \<open>
  Scores and weights are JavaScript numbers. The model keeps the four kinds of value
  that decide a comparison in the search: a finite number (taken as a real: in the
  scores, rounding, overflow and the sign of zero are not modelled), the two infinities,
  and NaN (the result of arithmetic on \<open>undefined\<close>). A comparison with NaN is false.
  The weight mutation, where rounding decides the sign of the result, rounds after
  every operation.
\<close>

datatype jsnum = Num real | PosInf | NegInf | NaN

fun jsAdd :: "jsnum \<Rightarrow> jsnum \<Rightarrow> jsnum" where
  "jsAdd NaN _ = NaN"
| "jsAdd _ NaN = NaN"
| "jsAdd (Num a) (Num b) = Num (a + b)"
| "jsAdd PosInf NegInf = NaN"
| "jsAdd NegInf PosInf = NaN"
| "jsAdd PosInf _ = PosInf"
| "jsAdd _ PosInf = PosInf"
| "jsAdd NegInf _ = NegInf"
| "jsAdd _ NegInf = NegInf"

fun jsMul :: "jsnum \<Rightarrow> jsnum \<Rightarrow> jsnum" where
  "jsMul NaN _ = NaN"
| "jsMul _ NaN = NaN"
| "jsMul (Num a) (Num b) = Num (a * b)"
| "jsMul PosInf (Num b) = (if b = 0 then NaN else if 0 < b then PosInf else NegInf)"
| "jsMul NegInf (Num b) = (if b = 0 then NaN else if 0 < b then NegInf else PosInf)"
| "jsMul (Num a) PosInf = (if a = 0 then NaN else if 0 < a then PosInf else NegInf)"
| "jsMul (Num a) NegInf = (if a = 0 then NaN else if 0 < a then NegInf else PosInf)"
| "jsMul PosInf PosInf = PosInf"
| "jsMul NegInf NegInf = PosInf"
| "jsMul PosInf NegInf = NegInf"
| "jsMul NegInf PosInf = NegInf"

fun jsLess :: "jsnum \<Rightarrow> jsnum \<Rightarrow> bool" where
  "jsLess NaN _ = False"
| "jsLess _ NaN = False"
| "jsLess (Num a) (Num b) = (a < b)"
| "jsLess NegInf NegInf = False"
| "jsLess NegInf _ = True"
| "jsLess _ NegInf = False"
| "jsLess PosInf _ = False"
| "jsLess _ PosInf = True"

section \<open>Weights\<close>

text \<open>
  A weight vector is an object from term names to numbers; reading a key that the object
  does not have gives \<open>undefined\<close>, here \<open>None\<close>.
\<close>

type_synonym weights = "string \<rightharpoonup> real"

text \<open>\<open>weights.k * n\<close>: \<open>undefined\<close> converts to NaN.\<close>

definition toNum :: "real option \<Rightarrow> jsnum" where
  "toNum v = (case v of None \<Rightarrow> NaN | Some r \<Rightarrow> Num r)"

text \<open>\<open>weights.k || 0\<close>: \<open>undefined\<close> and 0 are falsy.\<close>

definition orZero :: "real option \<Rightarrow> real" where
  "orZero v = (case v of None \<Rightarrow> 0 | Some r \<Rightarrow> (if r = 0 then 0 else r))"

definition BASE_SURVIVAL_WEIGHTS :: weights where
  "BASE_SURVIVAL_WEIGHTS =
     [''aggregateHeight'' \<mapsto> 0.51, ''completedLines'' \<mapsto> - 0.76, ''holes'' \<mapsto> 1.0,
      ''bumpiness'' \<mapsto> 0.18, ''lookaheadScore'' \<mapsto> 0.8, ''centerClog'' \<mapsto> 0.8,
      ''holeReduction'' \<mapsto> - 2.5]"

definition BASE_WELL_WEIGHTS :: weights where
  "BASE_WELL_WEIGHTS =
     [''aggregateHeight'' \<mapsto> 0.4, ''holes'' \<mapsto> 4.0, ''bumpiness'' \<mapsto> 0.25,
      ''wellClogs'' \<mapsto> 8.0, ''lineClearBonus'' \<mapsto> - 5.0, ''droughtPenalty'' \<mapsto> 0.08,
      ''lookaheadScore'' \<mapsto> 0.8]"

section \<open>Grid\<close>

text \<open>
  The grid is an array of \<open>GRID_HEIGHT\<close> rows of \<open>COLS\<close> cells, row 0 at the top; a cell
  is 0 (empty) or a piece kind plus one. Every read of the source is at a row below
  \<open>GRID_HEIGHT\<close> and a column below \<open>COLS\<close>, so on the grids of the game (24 rows of
  10 cells, which locking and line clearing preserve) \<open>g ! r ! c\<close> is the cell read.
  On an array with fewer rows the source throws a TypeError at the first read of a
  missing row; the model has no such grids in view, and a property that depends on the
  rows of the grid is stated for grids of 24 rows.
\<close>

type_synonym grid = "int list list"

definition COLS :: nat where "COLS = 10"
definition GRID_HEIGHT :: nat where "GRID_HEIGHT = 24"
definition BLANK_ROW :: "int list" where "BLANK_ROW = [0, 0, 0, 0, 0, 0, 0, 0, 0, 0]"
definition DANGER_HEIGHT_THRESHOLD :: int where "DANGER_HEIGHT_THRESHOLD = 18"
definition DROUGHT_THRESHOLD :: int where "DROUGHT_THRESHOLD = 12"

definition createEmptyGrid :: grid where
  "createEmptyGrid = replicate GRID_HEIGHT BLANK_ROW"

text \<open>The inner loop of \<open>getColumnHeights\<close>: the first occupied row from the top, if any.\<close>

definition columnHeight :: "grid \<Rightarrow> nat \<Rightarrow> int" where
  "columnHeight g c =
     (case find (\<lambda>r. g ! r ! c \<noteq> 0) [0..<GRID_HEIGHT] of
        None \<Rightarrow> 0
      | Some r \<Rightarrow> int GRID_HEIGHT - int r)"

definition getColumnHeights :: "grid \<Rightarrow> int list" where
  "getColumnHeights g = map (columnHeight g) [0..<COLS]"

definition getAggregateHeight :: "int list \<Rightarrow> int" where
  "getAggregateHeight heights = fold (\<lambda>h s. s + h) heights 0"

text \<open>One column of \<open>getHoles\<close>: the state is (blockFound, holes).\<close>

definition columnHoles :: "grid \<Rightarrow> nat \<Rightarrow> int" where
  "columnHoles g c =
     snd (fold (\<lambda>r (blockFound, holes).
                  if g ! r ! c \<noteq> 0 then (True, holes)
                  else if blockFound then (blockFound, holes + 1)
                  else (blockFound, holes))
               [0..<GRID_HEIGHT] (False, 0))"

definition getHoles :: "grid \<Rightarrow> int" where
  "getHoles g = fold (\<lambda>c holes. holes + columnHoles g c) [0..<COLS] 0"

definition getBumpiness :: "int list \<Rightarrow> int" where
  "getBumpiness heights =
     fold (\<lambda>i b. b + \<bar>heights ! i - heights ! (i + 1)\<bar>) [0..<length heights - 1] 0"

text \<open>\<open>Math.max(...heights)\<close> on the ten column heights.\<close>

definition maxHeight :: "int list \<Rightarrow> int" where
  "maxHeight heights = Max (set heights)"

subsection \<open>Line clearing\<close>

text \<open>\<open>row.every(cell => cell !== 0)\<close>\<close>

definition rowFull :: "int list \<Rightarrow> bool" where
  "rowFull row = list_all (\<lambda>cell. cell \<noteq> 0) row"

text \<open>The \<open>while (newGrid.length < GRID_HEIGHT) newGrid.unshift(blank)\<close> loop.\<close>

function padTop :: "grid \<Rightarrow> grid" where
  "padTop newGrid =
     (if length newGrid < GRID_HEIGHT then padTop (BLANK_ROW # newGrid) else newGrid)"
  by pat_completeness auto
termination
  by (relation "measure (\<lambda>ng. GRID_HEIGHT - length ng)") auto

text \<open>
  The \<open>for\<close> loop runs from the bottom row to the top one; a row that is not full is
  put in front of the rows kept so far. The state is (newGrid, clearedCount).
\<close>

definition simulateLineClearing :: "grid \<Rightarrow> grid \<times> int" where
  "simulateLineClearing g =
     (let (newGrid, clearedCount) =
            fold (\<lambda>r (ng, n). if rowFull (g ! r) then (ng, n + 1) else ((g ! r) # ng, n))
                 (rev [0..<GRID_HEIGHT]) ([], 0)
      in (padTop newGrid, clearedCount))"

section \<open>Board evaluation\<close>

text \<open>The bumpiness loop of the well branch, which skips one adjacent pair.\<close>

definition stackBumpiness :: "string \<Rightarrow> int list \<Rightarrow> int" where
  "stackBumpiness strategy heights =
     (let wellColumn = (if strategy = ''rightWell'' then 9 else 0 :: nat) in
      fold (\<lambda>i b.
              if (strategy = ''rightWell'' \<and> i = wellColumn - 1) \<or>
                 (strategy = ''leftWell'' \<and> i = wellColumn)
              then b
              else b + \<bar>heights ! i - heights ! (i + 1)\<bar>)
           [0..<COLS - 1] 0)"

text \<open>\<open>heights[neighborColumn] - heights[wellColumn]\<close>, the depth of the well.\<close>

definition wellDepth :: "string \<Rightarrow> int list \<Rightarrow> int" where
  "wellDepth strategy heights =
     (let wellColumn = (if strategy = ''rightWell'' then 9 else 0 :: nat);
          neighborColumn = (if strategy = ''rightWell'' then 8 else 1 :: nat)
      in heights ! neighborColumn - heights ! wellColumn)"

text \<open>The drought penalty of the well branch.\<close>

definition droughtPenalty :: "string \<Rightarrow> weights \<Rightarrow> int \<Rightarrow> int list \<Rightarrow> jsnum" where
  "droughtPenalty strategy w iPieceDrought heights =
     (if iPieceDrought > DROUGHT_THRESHOLD then
        (if wellDepth strategy heights > 3 then
           (let excessDrought = iPieceDrought - DROUGHT_THRESHOLD in
            jsMul (Num (of_int (excessDrought * wellDepth strategy heights)))
              (toNum (w ''droughtPenalty'')))
         else Num 0)
      else Num 0)"

text \<open>\<open>weights.bumpiness * stackBumpiness\<close>\<close>

definition wellBumpinessPenalty :: "string \<Rightarrow> weights \<Rightarrow> int list \<Rightarrow> jsnum" where
  "wellBumpinessPenalty strategy w heights =
     jsMul (toNum (w ''bumpiness'')) (Num (of_int (stackBumpiness strategy heights)))"

definition evaluateWell :: "grid \<Rightarrow> int \<Rightarrow> string \<Rightarrow> weights \<Rightarrow> int \<Rightarrow> jsnum" where
  "evaluateWell g clearedLines strategy w iPieceDrought =
     (let heights = getColumnHeights g;
          wellColumn = (if strategy = ''rightWell'' then 9 else 0 :: nat);
          holes = getHoles g;
          holePenalty = jsMul (toNum (w ''holes'')) (Num (of_int holes));
          bumpinessPenalty = wellBumpinessPenalty strategy w heights;
          aggregateHeight = getAggregateHeight heights;
          heightPenalty = jsMul (toNum (w ''aggregateHeight'')) (Num (of_int aggregateHeight));
          wellClogs = heights ! wellColumn;
          clogPenalty = jsMul (toNum (w ''wellClogs'')) (Num (of_int wellClogs));
          lineClearBonus =
            jsMul (toNum (w ''lineClearBonus'')) (Num (of_int (clearedLines * clearedLines)))
      in jsAdd (jsAdd (jsAdd (jsAdd (jsAdd holePenalty bumpinessPenalty) heightPenalty)
                  clogPenalty) lineClearBonus)
           (droughtPenalty strategy w iPieceDrought heights))"

definition evaluateSurvival :: "grid \<Rightarrow> int \<Rightarrow> weights \<Rightarrow> int option \<Rightarrow> real" where
  "evaluateSurvival g clearedLines w holesBeforeClear =
     (let heights = getColumnHeights g;
          holes = getHoles g;
          aggregateHeight = getAggregateHeight heights;
          bumpiness = getBumpiness heights;
          score = orZero (w ''aggregateHeight'') * of_int aggregateHeight +
                  orZero (w ''completedLines'') * of_int clearedLines +
                  orZero (w ''holes'') * of_int holes +
                  orZero (w ''bumpiness'') * of_int bumpiness;
          score1 =
            (case holesBeforeClear of
               None \<Rightarrow> score
             | Some hb \<Rightarrow>
                 if clearedLines > 0 \<and> hb - holes > 0
                 then score + orZero (w ''holeReduction'') * of_int (hb - holes)
                 else score)
      in if maxHeight heights > DANGER_HEIGHT_THRESHOLD
         then score1 + orZero (w ''centerClog'') *
                of_int (fold (\<lambda>c h. h + heights ! c) [3, 4, 5, 6] 0)
         else score1)"

definition evaluateBoard ::
  "grid \<Rightarrow> int \<Rightarrow> string \<Rightarrow> weights \<Rightarrow> int \<Rightarrow> int option \<Rightarrow> jsnum" where
  "evaluateBoard g clearedLines strategy w iPieceDrought holesBeforeClear =
     (if strategy = ''rightWell'' \<or> strategy = ''leftWell''
      then evaluateWell g clearedLines strategy w iPieceDrought
      else Num (evaluateSurvival g clearedLines w holesBeforeClear))"

section \<open>Pieces and the piece tables\<close>

text \<open>
  The shape table \<open>blockCoords\<close>, the four kick tables and the constant \<open>BLOCK_I\<close> are
  imported by the source from a data module; the functions below take them as a
  parameter. \<open>blockCoords tb t\<close> is the array of the shapes of kind \<open>t\<close>, one for each
  rotation, a shape being the list of the cells' offsets (column, row) from the anchor.
  A kick table gives, for a rotation state, the ordered list of the offsets to try.
  Piece kinds are 0..6 and rotation states 0..3; the source throws a TypeError on an
  entry that a table does not have, which the model does not represent.
\<close>

type_synonym cell = "int \<times> int"

record tables =
  blockCoords :: "nat \<Rightarrow> cell list list"
  BLOCK_I :: nat
  rotIleft :: "nat \<Rightarrow> cell list"
  rotIright :: "nat \<Rightarrow> cell list"
  rotJLTSZleft :: "nat \<Rightarrow> cell list"
  rotJLTSZright :: "nat \<Rightarrow> cell list"

record piece =
  ptype :: nat
  rotation :: nat
  px :: int
  py :: int

text \<open>
  The loop of \<open>collidesWithGrid\<close> over the cells of a shape, with the anchor already
  translated. The anchor row is \<open>None\<close> when the piece has no \<open>y\<close> (the lookahead's
  first test of a next piece, which carries its kind only): the row is then NaN and
  both row comparisons are false.
\<close>

fun cellsCollide :: "grid \<Rightarrow> int \<Rightarrow> int option \<Rightarrow> cell list \<Rightarrow> bool" where
  "cellsCollide g ax ay [] = False"
| "cellsCollide g ax ay (coord # coords) =
     (let col = ax + fst coord in
      if col < 0 \<or> col \<ge> int COLS \<or>
         (case ay of
            None \<Rightarrow> False
          | Some y \<Rightarrow>
              (let row = y + snd coord in
               row \<ge> int GRID_HEIGHT \<or> (row \<ge> 0 \<and> g ! nat row ! nat col \<noteq> 0)))
      then True
      else cellsCollide g ax ay coords)"

definition collidesWithGrid ::
  "tables \<Rightarrow> grid \<Rightarrow> piece \<Rightarrow> int \<Rightarrow> int \<Rightarrow> nat \<Rightarrow> bool" where
  "collidesWithGrid tb g activeBlock new_x new_y new_rotation =
     cellsCollide g (px activeBlock + new_x) (Some (py activeBlock + new_y))
       (blockCoords tb (ptype activeBlock) ! ((rotation activeBlock + new_rotation) mod 4))"

text \<open>\<open>collidesWithGrid(grid, tempPiece, 0, 0, 0)\<close> for a piece whose \<open>y\<close> is undefined.\<close>

definition collidesWithGridNoY :: "tables \<Rightarrow> grid \<Rightarrow> nat \<Rightarrow> nat \<Rightarrow> int \<Rightarrow> bool" where
  "collidesWithGridNoY tb g t rot x =
     cellsCollide g x None (blockCoords tb t ! (rot mod 4))"

text \<open>
  Writing a piece into a copy of the grid, as both the search and the lookahead do:
  cells outside the grid are skipped.
\<close>

definition lockShape :: "grid \<Rightarrow> nat \<Rightarrow> int \<Rightarrow> int \<Rightarrow> cell list \<Rightarrow> grid" where
  "lockShape g t x y shape =
     fold (\<lambda>coord tempGrid.
             (let col = x + fst coord; row = y + snd coord in
              if row \<ge> 0 \<and> row < int GRID_HEIGHT \<and> col \<ge> 0 \<and> col < int COLS
              then tempGrid[nat row := (tempGrid ! nat row)[nat col := int t + 1]]
              else tempGrid))
          shape g"

section \<open>One-ply lookahead\<close>

text \<open>
  The drop loop \<open>while (!collidesWithGrid(grid, {...tempPiece, y: y + 1}, 0, 0, 0)) y++\<close>.
  It does not return when the shape has no cell.
\<close>

partial_function (option) dropLoop :: "tables \<Rightarrow> grid \<Rightarrow> piece \<Rightarrow> int \<Rightarrow> int option" where
  "dropLoop tb g tempPiece y =
     (if \<not> collidesWithGrid tb g (tempPiece\<lparr>py := y + 1\<rparr>) 0 0 0
      then dropLoop tb g tempPiece (y + 1)
      else Some y)"

text \<open>A loop whose body may not return.\<close>

fun foldOpt :: "('a \<Rightarrow> 's \<Rightarrow> 's option) \<Rightarrow> 'a list \<Rightarrow> 's \<Rightarrow> 's option" where
  "foldOpt f [] s = Some s"
| "foldOpt f (a # as) s = (case f a s of None \<Rightarrow> None | Some s' \<Rightarrow> foldOpt f as s')"

text \<open>Lock a piece at its resting pose, clear the lines and evaluate the board.\<close>

definition placementScore ::
  "tables \<Rightarrow> grid \<Rightarrow> piece \<Rightarrow> string \<Rightarrow> weights \<Rightarrow> int \<Rightarrow> jsnum" where
  "placementScore tb g tempPiece strategy w iPieceDrought =
     (let tempGrid = lockShape g (ptype tempPiece) (px tempPiece) (py tempPiece)
                       (blockCoords tb (ptype tempPiece) ! rotation tempPiece);
          holesBeforeClear = getHoles tempGrid;
          (finalGrid, clearedCount) = simulateLineClearing tempGrid
      in evaluateBoard finalGrid clearedCount strategy w iPieceDrought (Some holesBeforeClear))"

text \<open>
  The body of the loop over \<open>x\<close>. The state is the \<open>y\<close> of \<open>tempPiece\<close> (undefined until
  the first placement of this rotation, afterwards the resting row of the last
  placement) and \<open>bestScore\<close>.
\<close>

definition tryColumn ::
  "tables \<Rightarrow> grid \<Rightarrow> nat \<Rightarrow> nat \<Rightarrow> string \<Rightarrow> weights \<Rightarrow> int \<Rightarrow> int \<Rightarrow>
   int option \<times> jsnum \<Rightarrow> (int option \<times> jsnum) option" where
  "tryColumn tb g t rot strategy w iPieceDrought x s =
     (let (tempY, bestScore) = s in
      if (case tempY of
            None \<Rightarrow> collidesWithGridNoY tb g t rot x
          | Some y0 \<Rightarrow>
              collidesWithGrid tb g \<lparr>ptype = t, rotation = rot, px = x, py = y0\<rparr> 0 0 0)
      then Some s
      else
        (case dropLoop tb g \<lparr>ptype = t, rotation = rot, px = x, py = 0\<rparr> 0 of
           None \<Rightarrow> None
         | Some y \<Rightarrow>
             (let score = placementScore tb g \<lparr>ptype = t, rotation = rot, px = x, py = y\<rparr>
                            strategy w iPieceDrought
              in Some (Some y, if jsLess score bestScore then score else bestScore))))"

definition tryRotation ::
  "tables \<Rightarrow> grid \<Rightarrow> nat \<Rightarrow> string \<Rightarrow> weights \<Rightarrow> int \<Rightarrow> nat \<Rightarrow> jsnum \<Rightarrow> jsnum option" where
  "tryRotation tb g t strategy w iPieceDrought rot bestScore =
     map_option snd
       (foldOpt (tryColumn tb g t rot strategy w iPieceDrought) [- 2 .. int COLS - 1]
          (None, bestScore))"

definition evaluateAllPossiblePlacements ::
  "tables \<Rightarrow> grid \<Rightarrow> nat option \<Rightarrow> string \<Rightarrow> weights \<Rightarrow> int \<Rightarrow> jsnum option" where
  "evaluateAllPossiblePlacements tb g nextPiece strategy w iPieceDrought =
     (case nextPiece of
        None \<Rightarrow> Some (Num 0)
      | Some t \<Rightarrow>
          foldOpt (tryRotation tb g t strategy w iPieceDrought)
            [0..<length (blockCoords tb t)] PosInf)"

section \<open>Placement search\<close>

datatype action = moveL | moveR | softD | rotateR | rotateL | hardD

text \<open>
  \<open>getPieceKey\<close> prints x, y and the rotation, separated by commas: the string and the
  triple determine each other.
\<close>

type_synonym pieceKey = "int \<times> int \<times> nat"

definition getPieceKey :: "piece \<Rightarrow> pieceKey" where
  "getPieceKey p = (px p, py p, rotation p)"

text \<open>The kick tests of a rotation attempt, and the rotation they add.\<close>

definition srsTests :: "tables \<Rightarrow> piece \<Rightarrow> string \<Rightarrow> cell list" where
  "srsTests tb p direction =
     (if ptype p = BLOCK_I tb
      then (if direction = ''R'' then rotIright tb else rotIleft tb)
      else (if direction = ''R'' then rotJLTSZright tb else rotJLTSZleft tb)) (rotation p)"

definition rotationDelta :: "string \<Rightarrow> nat" where
  "rotationDelta direction = (if direction = ''R'' then 1 else 3)"

definition simulateRotation :: "tables \<Rightarrow> grid \<Rightarrow> piece \<Rightarrow> string \<Rightarrow> piece option" where
  "simulateRotation tb g p direction =
     (if ptype p = 3 then None
      else
        (let tests = srsTests tb p direction; r = rotationDelta direction in
         case find (\<lambda>test. \<not> collidesWithGrid tb g p (fst test) (snd test) r) tests of
           None \<Rightarrow> None
         | Some test \<Rightarrow>
             Some (p\<lparr>px := px p + fst test, py := py p + snd test,
                     rotation := (rotation p + r) mod 4\<rparr>)))"

record search =
  queue :: "(piece \<times> action list) list"
  visited :: "pieceKey set"
  bestScore :: jsnum
  bestPath :: "action list option"
  bestTarget :: "piece option"

text \<open>\<open>weights.lookaheadScore || 0.8\<close>\<close>

definition lookaheadWeight :: "weights \<Rightarrow> real" where
  "lookaheadWeight w =
     (case w ''lookaheadScore'' of None \<Rightarrow> 0.8 | Some v \<Rightarrow> (if v = 0 then 0.8 else v))"

text \<open>The score of a terminal candidate: the move itself and the best next placement.\<close>

definition totalScore ::
  "tables \<Rightarrow> grid \<Rightarrow> nat option \<Rightarrow> string \<Rightarrow> weights \<Rightarrow> int \<Rightarrow> piece \<Rightarrow> jsnum option" where
  "totalScore tb g nextPiece strategy w iPieceDrought p =
     (let tempGrid = lockShape g (ptype p) (px p) (py p)
                       (blockCoords tb (ptype p) ! rotation p);
          holesBeforeClear = getHoles tempGrid;
          (gridAfterCurrentMove, clearedCount) = simulateLineClearing tempGrid;
          currentMoveScore =
            evaluateBoard gridAfterCurrentMove clearedCount strategy w iPieceDrought
              (Some holesBeforeClear)
      in case evaluateAllPossiblePlacements tb gridAfterCurrentMove nextPiece strategy w
                iPieceDrought of
           None \<Rightarrow> None
         | Some nextPieceBestScore \<Rightarrow>
             Some (jsAdd currentMoveScore
                    (jsMul nextPieceBestScore (Num (lookaheadWeight w)))))"

text \<open>The first half of the loop body: a pose that cannot move down is a candidate.\<close>

definition considerTerminal ::
  "tables \<Rightarrow> grid \<Rightarrow> nat option \<Rightarrow> string \<Rightarrow> weights \<Rightarrow> int \<Rightarrow>
   piece \<times> action list \<Rightarrow> search \<Rightarrow> search option" where
  "considerTerminal tb g nextPiece strategy w iPieceDrought n st =
     (if collidesWithGrid tb g (fst n) 0 1 0 then
        (case totalScore tb g nextPiece strategy w iPieceDrought (fst n) of
           None \<Rightarrow> None
         | Some tot \<Rightarrow>
             Some (if jsLess tot (bestScore st)
                   then st\<lparr>bestScore := tot, bestPath := Some (snd n @ [hardD]),
                           bestTarget := Some (fst n)\<rparr>
                   else st))
      else Some st)"

text \<open>
  The five actions: name, new piece (\<open>None\<close> for null) and \<open>isValid\<close> (\<open>None\<close> where
  the object has no such field, as for the two rotations).
\<close>

definition actions ::
  "tables \<Rightarrow> grid \<Rightarrow> piece \<Rightarrow> (action \<times> piece option \<times> bool option) list" where
  "actions tb g p =
     [(moveL, Some (p\<lparr>px := px p - 1\<rparr>), Some (\<not> collidesWithGrid tb g p (- 1) 0 0)),
      (moveR, Some (p\<lparr>px := px p + 1\<rparr>), Some (\<not> collidesWithGrid tb g p 1 0 0)),
      (softD, Some (p\<lparr>py := py p + 1\<rparr>), Some (\<not> collidesWithGrid tb g p 0 1 0)),
      (rotateR, simulateRotation tb g p ''R'', None),
      (rotateL, simulateRotation tb g p ''L'', None)]"

definition enqueue ::
  "action list \<Rightarrow> action \<times> piece option \<times> bool option \<Rightarrow> search \<Rightarrow> search" where
  "enqueue pth a st =
     (case a of (name, newPiece, isValid) \<Rightarrow>
        (case newPiece of
           None \<Rightarrow> st
         | Some np \<Rightarrow>
             if isValid = None \<or> isValid = Some True then
               (if getPieceKey np \<notin> visited st
                then st\<lparr>visited := insert (getPieceKey np) (visited st),
                        queue := queue st @ [(np, pth @ [name])]\<rparr>
                else st)
             else st))"

definition bfsStep ::
  "tables \<Rightarrow> grid \<Rightarrow> nat option \<Rightarrow> string \<Rightarrow> weights \<Rightarrow> int \<Rightarrow>
   piece \<times> action list \<Rightarrow> search \<Rightarrow> search option" where
  "bfsStep tb g nextPiece strategy w iPieceDrought n st =
     (case considerTerminal tb g nextPiece strategy w iPieceDrought n st of
        None \<Rightarrow> None
      | Some st' \<Rightarrow> Some (fold (enqueue (snd n)) (actions tb g (fst n)) st'))"

text \<open>The \<open>while (queue.length > 0)\<close> loop; \<open>None\<close> when it does not return.\<close>

partial_function (option) bfs ::
  "tables \<Rightarrow> grid \<Rightarrow> nat option \<Rightarrow> string \<Rightarrow> weights \<Rightarrow> int \<Rightarrow> search \<Rightarrow> search option" where
  "bfs tb g nextPiece strategy w iPieceDrought st =
     (case queue st of
        [] \<Rightarrow> Some st
      | n # rest \<Rightarrow>
          (case bfsStep tb g nextPiece strategy w iPieceDrought n (st\<lparr>queue := rest\<rparr>) of
             None \<Rightarrow> None
           | Some st' \<Rightarrow> bfs tb g nextPiece strategy w iPieceDrought st'))"

text \<open>
  The state read by \<open>findBestMove\<close>. \<open>Block\<close> is \<open>None\<close> when there is no active piece
  (the object is missing or has no kind); \<open>Next\<close> carries the kind of the next piece.
\<close>

record game =
  grid :: grid
  Block :: "piece option"
  Next :: "nat option"
  iPieceDrought :: int

record move =
  path :: "action list"
  target :: "piece option"

definition effectiveStrategy :: "grid \<Rightarrow> string \<Rightarrow> string" where
  "effectiveStrategy g strategy =
     (if strategy = ''rightWell'' \<or> strategy = ''leftWell''
      then (if maxHeight (getColumnHeights g) > DANGER_HEIGHT_THRESHOLD
            then ''survival'' else strategy)
      else strategy)"

definition initialSearch :: "piece \<Rightarrow> search" where
  "initialSearch initialPiece =
     \<lparr>queue = [(initialPiece, [])], visited = {getPieceKey initialPiece},
      bestScore = PosInf, bestPath = None, bestTarget = None\<rparr>"

definition findBestMove :: "tables \<Rightarrow> game \<Rightarrow> string \<Rightarrow> weights \<Rightarrow> move option" where
  "findBestMove tb state strategy w =
     (let strat = effectiveStrategy (grid state) strategy in
      case Block state of
        None \<Rightarrow> Some \<lparr>path = [], target = None\<rparr>
      | Some initialPiece \<Rightarrow>
          (case bfs tb (grid state) (Next state) strat w (iPieceDrought state)
                  (initialSearch initialPiece) of
             None \<Rightarrow> None
           | Some st \<Rightarrow>
               Some \<lparr>path = (case bestPath st of None \<Rightarrow> [hardD] | Some p \<Rightarrow> p),
                     target = bestTarget st\<rparr>))"

section \<open>Weight mutation\<close>

text \<open>
  \<open>mutateWeights\<close> computes in IEEE doubles, and the sign of its result depends on how
  the products round. Every operation is the exact operation on the two doubles followed
  by the rounding \<open>fl\<close>, a parameter: \<open>fl x\<close> is the double that the real \<open>x\<close> rounds
  to, or an infinity when it overflows. \<open>Num 0\<close> stands for both zeros, which the
  comparison \<open>< 0\<close> does not tell apart.
\<close>

type_synonym rounding = "real \<Rightarrow> jsnum"

definition fAdd :: "rounding \<Rightarrow> jsnum \<Rightarrow> jsnum \<Rightarrow> jsnum" where
  "fAdd fl a b = (case jsAdd a b of Num r \<Rightarrow> fl r | v \<Rightarrow> v)"

definition fMul :: "rounding \<Rightarrow> jsnum \<Rightarrow> jsnum \<Rightarrow> jsnum" where
  "fMul fl a b = (case jsMul a b of Num r \<Rightarrow> fl r | v \<Rightarrow> v)"

text \<open>
  One pass of the loop over the keys, for a base value that is not 0: the value of
  \<open>newValue\<close> before the guard. \<open>rnd\<close> is the value that \<open>Math.random()\<close> returns for
  this key, in [0, 1); \<open>baseValue\<close>, \<open>mutationFactor\<close> and \<open>rnd\<close> are doubles.
\<close>

definition newValue :: "rounding \<Rightarrow> real \<Rightarrow> real \<Rightarrow> real \<Rightarrow> jsnum" where
  "newValue fl rnd mutationFactor baseValue =
     (let factor = (if baseValue < 0 then fl (mutationFactor / 1.5) else Num mutationFactor);
          change = fMul fl (fMul fl (fl (rnd - 0.5)) (Num 2)) factor
      in fMul fl (Num baseValue) (fAdd fl (Num 1) change))"

text \<open>The product \<open>baseValue * newValue\<close> that the guard compares with 0.\<close>

definition guardProduct :: "rounding \<Rightarrow> real \<Rightarrow> real \<Rightarrow> real \<Rightarrow> jsnum" where
  "guardProduct fl rnd mutationFactor baseValue =
     fMul fl (Num baseValue) (newValue fl rnd mutationFactor baseValue)"

text \<open>The pass for one key: a base value of 0 is skipped, the guard reverts the others.\<close>

definition mutateValue :: "rounding \<Rightarrow> real \<Rightarrow> real \<Rightarrow> real \<Rightarrow> jsnum" where
  "mutateValue fl rnd mutationFactor baseValue =
     (if baseValue = 0 then Num baseValue
      else if jsLess (guardProduct fl rnd mutationFactor baseValue) (Num 0)
           then Num baseValue
           else newValue fl rnd mutationFactor baseValue)"




text \<open>
  A rounding for the examples: a value of magnitude at most \<open>2 ^ - 1075\<close>, half the
  smallest positive double, becomes zero, as rounding to nearest (ties to even) makes it;
  any other value is kept. It agrees with the rounding of doubles on the values that the
  examples meet, which are doubles or round to zero.
\<close>

definition sampleRounding :: rounding where
  "sampleRounding x = (if \<bar>x\<bar> \<le> 1 / 2 ^ 1075 then Num 0 else Num x)"


section \<open>A sample of the piece tables\<close>

text \<open>
  Concrete inputs need concrete tables. The sample has the seven tetrominoes in the
  usual layout (offsets from the top-left corner of the piece's box, rows growing
  downwards) with the kind numbers I = 0, J = 1, L = 2, O = 3, S = 4, T = 5, Z = 6, and
  the usual kick lists of the super rotation system. The theorems hold for every table;
  the sample only instantiates them.
\<close>

definition sampleCoords :: "nat \<Rightarrow> cell list list" where
  "sampleCoords t =
     (if t = 0 then
        [[(0, 1), (1, 1), (2, 1), (3, 1)], [(2, 0), (2, 1), (2, 2), (2, 3)],
         [(0, 2), (1, 2), (2, 2), (3, 2)], [(1, 0), (1, 1), (1, 2), (1, 3)]]
      else if t = 1 then
        [[(0, 0), (0, 1), (1, 1), (2, 1)], [(1, 0), (2, 0), (1, 1), (1, 2)],
         [(0, 1), (1, 1), (2, 1), (2, 2)], [(1, 0), (1, 1), (0, 2), (1, 2)]]
      else if t = 2 then
        [[(2, 0), (0, 1), (1, 1), (2, 1)], [(1, 0), (1, 1), (1, 2), (2, 2)],
         [(0, 1), (1, 1), (2, 1), (0, 2)], [(0, 0), (1, 0), (1, 1), (1, 2)]]
      else if t = 3 then
        [[(1, 0), (2, 0), (1, 1), (2, 1)], [(1, 0), (2, 0), (1, 1), (2, 1)],
         [(1, 0), (2, 0), (1, 1), (2, 1)], [(1, 0), (2, 0), (1, 1), (2, 1)]]
      else if t = 4 then
        [[(1, 0), (2, 0), (0, 1), (1, 1)], [(1, 0), (1, 1), (2, 1), (2, 2)],
         [(1, 1), (2, 1), (0, 2), (1, 2)], [(0, 0), (0, 1), (1, 1), (1, 2)]]
      else if t = 5 then
        [[(1, 0), (0, 1), (1, 1), (2, 1)], [(1, 0), (1, 1), (2, 1), (1, 2)],
         [(0, 1), (1, 1), (2, 1), (1, 2)], [(1, 0), (0, 1), (1, 1), (1, 2)]]
      else
        [[(0, 0), (1, 0), (1, 1), (2, 1)], [(2, 0), (1, 1), (2, 1), (1, 2)],
         [(0, 1), (1, 1), (1, 2), (2, 2)], [(1, 0), (0, 1), (1, 1), (0, 2)]])"

definition sampleJLTSZright :: "nat \<Rightarrow> cell list" where
  "sampleJLTSZright r =
     (if r = 0 then [(0, 0), (- 1, 0), (- 1, - 1), (0, 2), (- 1, 2)]
      else if r = 1 then [(0, 0), (1, 0), (1, 1), (0, - 2), (1, - 2)]
      else if r = 2 then [(0, 0), (1, 0), (1, - 1), (0, 2), (1, 2)]
      else [(0, 0), (- 1, 0), (- 1, 1), (0, - 2), (- 1, - 2)])"

definition sampleJLTSZleft :: "nat \<Rightarrow> cell list" where
  "sampleJLTSZleft r =
     (if r = 0 then [(0, 0), (1, 0), (1, - 1), (0, 2), (1, 2)]
      else if r = 1 then [(0, 0), (1, 0), (1, 1), (0, - 2), (1, - 2)]
      else if r = 2 then [(0, 0), (- 1, 0), (- 1, - 1), (0, 2), (- 1, 2)]
      else [(0, 0), (- 1, 0), (- 1, 1), (0, - 2), (- 1, - 2)])"

definition sampleIright :: "nat \<Rightarrow> cell list" where
  "sampleIright r =
     (if r = 0 then [(0, 0), (- 2, 0), (1, 0), (- 2, 1), (1, - 2)]
      else if r = 1 then [(0, 0), (- 1, 0), (2, 0), (- 1, - 2), (2, 1)]
      else if r = 2 then [(0, 0), (2, 0), (- 1, 0), (2, - 1), (- 1, 2)]
      else [(0, 0), (1, 0), (- 2, 0), (1, 2), (- 2, - 1)])"

definition sampleIleft :: "nat \<Rightarrow> cell list" where
  "sampleIleft r =
     (if r = 0 then [(0, 0), (- 1, 0), (2, 0), (- 1, - 2), (2, 1)]
      else if r = 1 then [(0, 0), (2, 0), (- 1, 0), (2, - 1), (- 1, 2)]
      else if r = 2 then [(0, 0), (1, 0), (- 2, 0), (1, 2), (- 2, - 1)]
      else [(0, 0), (- 2, 0), (1, 0), (- 2, 1), (1, - 2)])"

definition sampleTables :: tables where
  "sampleTables =
     \<lparr>blockCoords = sampleCoords, BLOCK_I = 0, rotIleft = sampleIleft,
      rotIright = sampleIright, rotJLTSZleft = sampleJLTSZleft,
      rotJLTSZright = sampleJLTSZright\<rparr>"

section \<open>Conditions on the piece tables\<close>

text \<open>
  The search stops because the poses it can reach are finitely many. A pose that does not
  collide is bounded sideways and downwards by the collision test, but not upwards: a
  cell above row 0 never collides. Only a kick of a rotation moves a piece up, so the
  bound upwards is a property of the tables. The conditions below state it: every shape
  has a cell, and a piece that only the side walls can obstruct (it is above every row
  of the grid) is never kicked upwards.
\<close>

text \<open>Some cell of the shape, anchored at column \<open>x\<close>, is outside the columns of the grid.\<close>

definition wallHit :: "cell list \<Rightarrow> int \<Rightarrow> bool" where
  "wallHit shape x = list_ex (\<lambda>c. x + fst c < 0 \<or> x + fst c \<ge> int COLS) shape"

text \<open>The largest absolute offset of a cell of kind \<open>t\<close>, over the four rotations.\<close>

definition cellBound :: "tables \<Rightarrow> nat \<Rightarrow> int" where
  "cellBound tb t =
     foldr max (map (\<lambda>c. max \<bar>fst c\<bar> \<bar>snd c\<bar>)
                  (concat (map (\<lambda>r. blockCoords tb t ! r) [0..<4]))) 0"

text \<open>The kick tests of kind \<open>t\<close> in rotation state \<open>r\<close>.\<close>

definition kickTests :: "tables \<Rightarrow> nat \<Rightarrow> nat \<Rightarrow> string \<Rightarrow> cell list" where
  "kickTests tb t r direction =
     srsTests tb \<lparr>ptype = t, rotation = r, px = 0, py = 0\<rparr> direction"

text \<open>The largest absolute vertical offset of a kick test of kind \<open>t\<close>.\<close>

definition kickBound :: "tables \<Rightarrow> nat \<Rightarrow> int" where
  "kickBound tb t =
     foldr max (map (\<lambda>c. \<bar>snd c\<bar>)
                  (concat (map (\<lambda>r. kickTests tb t r ''R'' @ kickTests tb t r ''L'') [0..<4]))) 0"

definition shapesNonempty :: "tables \<Rightarrow> nat \<Rightarrow> bool" where
  "shapesNonempty tb t = (\<forall>r \<in> set [0..<4]. blockCoords tb t ! r \<noteq> [])"

text \<open>
  For every rotation state, direction and anchor column at which the shape is inside
  the walls, the first kick test that puts the rotated shape inside the walls does not
  move the piece up. The square piece (kind 3) never rotates.
\<close>

definition kicksSafe :: "tables \<Rightarrow> nat \<Rightarrow> bool" where
  "kicksSafe tb t =
     (t = 3 \<or>
      (\<forall>r \<in> set [0..<4]. \<forall>direction \<in> set [''R'', ''L''].
         \<forall>x \<in> set [- cellBound tb t .. 9 + cellBound tb t].
           \<not> wallHit (blockCoords tb t ! r) x \<longrightarrow>
           (case find (\<lambda>test. \<not> wallHit (blockCoords tb t ! ((r + rotationDelta direction) mod 4))
                                 (x + fst test))
                   (kickTests tb t r direction) of
              None \<Rightarrow> True
            | Some test \<Rightarrow> 0 \<le> snd test)))"

section \<open>The poses an iteration enqueues\<close>

text \<open>The new pieces of the actions that pass the test of the enqueueing loop.\<close>

definition accepted :: "(action \<times> piece option \<times> bool option) list \<Rightarrow> piece list" where
  "accepted as =
     List.map_filter
       (\<lambda>a. if snd (snd a) = None \<or> snd (snd a) = Some True then fst (snd a) else None) as"

definition successors :: "tables \<Rightarrow> grid \<Rightarrow> piece \<Rightarrow> piece list" where
  "successors tb g p = accepted (actions tb g p)"

section \<open>Example grids\<close>

text \<open>
  Columns 0 to 8 filled to height 5 and column 9 filled to height \<open>h\<close>: the grids of
  the right-well example.
\<close>

definition wellExampleGrid :: "nat \<Rightarrow> grid" where
  "wellExampleGrid h =
     map (\<lambda>r. map (\<lambda>c. if (c < 9 \<and> 24 - r \<le> 5) \<or> (c = 9 \<and> 24 - r \<le> h) then 1 else 0)
                 [0..<10])
       [0..<24]"

text \<open>
  An empty grid with two cells of each of the rows 22 and 23 occupied, so that the
  square piece at x = 3, y = 22 can move neither sideways nor down.
\<close>

definition pocketGrid :: grid where
  "pocketGrid = replicate 22 BLANK_ROW @
     [[0, 0, 0, 1, 0, 0, 1, 0, 0, 0], [0, 0, 0, 1, 0, 0, 1, 0, 0, 0]]"

text \<open>
  The grid \<open>pocketGrid\<close> with one more cell, at row 5 of column 9: column 9 has
  height 19, above the danger threshold.
\<close>

definition dangerGrid :: grid where
  "dangerGrid = pocketGrid[5 := [0, 0, 0, 0, 0, 0, 0, 0, 0, 1]]"

declare dropLoop.simps [code]
declare bfs.simps [code]

section \<open>Collision test\<close>

lemma cellsCollide_iff:
  "cellsCollide g ax ay cs \<longleftrightarrow>
     (\<exists>c\<in>set cs. ax + fst c < 0 \<or> ax + fst c \<ge> int COLS \<or>
        (case ay of None \<Rightarrow> False
         | Some y \<Rightarrow> y + snd c \<ge> int GRID_HEIGHT \<or>
             (y + snd c \<ge> 0 \<and> g ! nat (y + snd c) ! nat (ax + fst c) \<noteq> 0)))"
  by (induction cs) (auto simp: Let_def split: option.splits)

text \<open>
  C8. \<open>collidesWithGrid\<close> is true exactly when some cell of the shape at rotation
  (rotation + drot) mod 4, translated by (dx, dy), has its column outside [0, 10), or
  its row at 24 or more, or lies on an occupied cell of the grid at a row that is not
  negative. When every cell is at a column inside [0, 10) and at a negative row, there is
  no collision, whatever the grid holds.
\<close>

theorem collidesWithGrid_iff:
  "(collidesWithGrid tb g p dx dy drot \<longleftrightarrow>
      (\<exists>(cx, cy) \<in> set (blockCoords tb (ptype p) ! ((rotation p + drot) mod 4)).
          px p + dx + cx < 0 \<or> px p + dx + cx \<ge> 10 \<or> py p + dy + cy \<ge> 24 \<or>
          (py p + dy + cy \<ge> 0 \<and> g ! nat (py p + dy + cy) ! nat (px p + dx + cx) \<noteq> 0)))
   \<and> ((\<forall>(cx, cy) \<in> set (blockCoords tb (ptype p) ! ((rotation p + drot) mod 4)).
          0 \<le> px p + dx + cx \<and> px p + dx + cx < 10 \<and> py p + dy + cy < 0)
        \<longrightarrow> \<not> collidesWithGrid tb g p dx dy drot)"
  unfolding collidesWithGrid_def cellsCollide_iff
  by (auto simp: COLS_def GRID_HEIGHT_def case_prod_beta)

theorem collidesWithGrid_iff_witness:
  "\<not> collidesWithGrid sampleTables (replicate 24 (replicate 10 1))
       \<lparr>ptype = 5, rotation = 0, px = 3, py = - 5\<rparr> 0 0 0"
proof -
  let ?p = "\<lparr>ptype = 5, rotation = 0, px = 3, py = - 5\<rparr>"
  have "\<forall>(cx, cy) \<in> set (blockCoords sampleTables (ptype ?p) ! ((rotation ?p + 0) mod 4)).
          0 \<le> px ?p + 0 + cx \<and> px ?p + 0 + cx < 10 \<and> py ?p + 0 + cy < 0"
    by (simp add: sampleTables_def sampleCoords_def)
  with collidesWithGrid_iff [of sampleTables "replicate 24 (replicate 10 1)" ?p 0 0 0]
  show ?thesis by blast
qed

section \<open>Line clearing\<close>

lemma padTop_eq: "padTop ng = replicate (GRID_HEIGHT - length ng) BLANK_ROW @ ng"
proof (induction ng rule: padTop.induct)
  case (1 ng)
  show ?case
  proof (cases "length ng < GRID_HEIGHT")
    case True
    then have "GRID_HEIGHT - length ng = Suc (GRID_HEIGHT - length (BLANK_ROW # ng))" by simp
    with 1 True show ?thesis
      by (subst padTop.simps) (simp add: replicate_append_same del: padTop.simps)
  next
    case False
    then show ?thesis by (subst padTop.simps) simp
  qed
qed

lemma clear_fold:
  "n \<le> length g \<Longrightarrow>
   fold (\<lambda>r (ng, k). if rowFull (g ! r) then (ng, k + 1) else ((g ! r) # ng, k))
        (rev [0..<n]) (acc, k0)
   = (filter (\<lambda>row. \<not> rowFull row) (take n g) @ acc,
      k0 + int (length (filter rowFull (take n g))))"
proof (induction n arbitrary: acc k0)
  case 0
  then show ?case by simp
next
  case (Suc n)
  then have n: "n < length g" by simp
  then have tk: "take (Suc n) g = take n g @ [g ! n]" by (simp add: take_Suc_conv_app_nth)
  show ?case using Suc.IH n by (simp add: tk)
qed

lemma simulateLineClearing_eq:
  assumes "length g = GRID_HEIGHT"
  shows "simulateLineClearing g =
           (replicate (length (filter rowFull g)) BLANK_ROW @ filter (\<lambda>row. \<not> rowFull row) g,
            int (length (filter rowFull g)))"
proof -
  have "length (filter rowFull g) + length (filter (\<lambda>row. \<not> rowFull row) g) = length g"
    by (rule sum_length_filter_compl)
  then have "GRID_HEIGHT - length (filter (\<lambda>row. \<not> rowFull row) g) = length (filter rowFull g)"
    using assms by simp
  then show ?thesis
    using clear_fold [of GRID_HEIGHT g "[]" 0] assms
    by (simp add: simulateLineClearing_def padTop_eq del: padTop.simps)
qed

text \<open>
  C7. On a grid of 24 rows, \<open>simulateLineClearing\<close> returns 24 rows: the rows that are
  not full, in their order, under as many blank rows as there were full rows, and that
  number as \<open>clearedCount\<close>. When no row is full, it returns the grid itself and 0.
\<close>

theorem simulateLineClearing_rows:
  assumes "length g = 24"
  shows "length (fst (simulateLineClearing g)) = 24
       \<and> snd (simulateLineClearing g) = int (length (filter rowFull g))
       \<and> fst (simulateLineClearing g) =
           replicate (nat (snd (simulateLineClearing g))) BLANK_ROW @
           filter (\<lambda>row. \<not> rowFull row) g
       \<and> ((\<forall>row \<in> set g. \<not> rowFull row) \<longrightarrow> simulateLineClearing g = (g, 0))"
proof -
  have len: "length g = GRID_HEIGHT" using assms by (simp add: GRID_HEIGHT_def)
  have "length (filter rowFull g) + length (filter (\<lambda>row. \<not> rowFull row) g) = 24"
    using sum_length_filter_compl [of rowFull g] assms by simp
  moreover have "(\<forall>row \<in> set g. \<not> rowFull row) \<Longrightarrow>
      filter rowFull g = [] \<and> filter (\<lambda>row. \<not> rowFull row) g = g"
    by (simp add: filter_empty_conv)
  ultimately show ?thesis
    by (auto simp: simulateLineClearing_eq [OF len])
qed

theorem simulateLineClearing_rows_witness:
  "simulateLineClearing createEmptyGrid = (createEmptyGrid, 0)
   \<and> length (fst (simulateLineClearing
         (replicate 23 BLANK_ROW @ [[1, 1, 1, 1, 1, 1, 1, 1, 1, 1]]))) = 24
   \<and> snd (simulateLineClearing
         (replicate 23 BLANK_ROW @ [[1, 1, 1, 1, 1, 1, 1, 1, 1, 1]])) = 1"
proof -
  let ?g = "replicate 23 BLANK_ROW @ [[1, 1, 1, 1, 1, 1, 1, 1, 1, 1 :: int]]"
  have "length createEmptyGrid = 24" "\<forall>row \<in> set createEmptyGrid. \<not> rowFull row"
    by (simp_all add: createEmptyGrid_def GRID_HEIGHT_def BLANK_ROW_def rowFull_def)
  moreover have "length ?g = 24" by simp
  ultimately show ?thesis
    using simulateLineClearing_rows [of createEmptyGrid] simulateLineClearing_rows [of ?g]
    by (simp add: rowFull_def BLANK_ROW_def)
qed

section \<open>Board evaluation: the well branch\<close>

lemma jsAdd_zero_right: "jsAdd x (Num 0) = x"
  by (cases x) simp_all

lemma droughtPenalty_zero: "droughtPenalty strategy w 0 heights = Num 0"
  by (simp add: droughtPenalty_def DROUGHT_THRESHOLD_def)

lemma evaluateWell_split:
  "evaluateWell g c strategy w d =
     jsAdd (evaluateWell g c strategy w 0) (droughtPenalty strategy w d (getColumnHeights g))"
  by (simp add: evaluateWell_def Let_def droughtPenalty_zero jsAdd_zero_right)

lemma droughtPenalty_eq:
  "droughtPenalty strategy w d heights =
     (if d > 12 \<and> wellDepth strategy heights > 3
      then jsMul (Num (of_int ((d - 12) * wellDepth strategy heights)))
             (toNum (w ''droughtPenalty''))
      else Num 0)"
  by (simp add: droughtPenalty_def DROUGHT_THRESHOLD_def Let_def)

lemma evaluateBoard_well:
  "strategy = ''rightWell'' \<or> strategy = ''leftWell'' \<Longrightarrow>
   evaluateBoard g c strategy w d hb =
     jsAdd (evaluateBoard g c strategy w 0 hb)
       (droughtPenalty strategy w d (getColumnHeights g))"
  unfolding evaluateBoard_def using evaluateWell_split [of g c strategy w d] by simp

lemma upt9: "[0..<9] = [0, 1, 2, 3, 4, 5, 6, 7, 8 :: nat]"
  by (simp add: upt_rec)

lemma set9r: "{0..<9::nat} - {8} = {0, 1, 2, 3, 4, 5, 6, 7}"
  by auto

lemma set9l: "{0..<9::nat} - {0} = {1, 2, 3, 4, 5, 6, 7, 8}"
  by auto

lemma stackBumpiness_right:
  "stackBumpiness ''rightWell'' hs = (\<Sum>i \<in> {0..<9} - {8}. \<bar>hs ! i - hs ! (i + 1)\<bar>)"
  unfolding set9r by (simp add: stackBumpiness_def COLS_def upt9)

lemma stackBumpiness_left:
  "stackBumpiness ''leftWell'' hs = (\<Sum>i \<in> {0..<9} - {0}. \<bar>hs ! i - hs ! (i + 1)\<bar>)"
  unfolding set9l by (simp add: stackBumpiness_def COLS_def upt9)

text \<open>
  The score of the well branch when the five weights that it multiplies are present: a
  finite number, the weighted sum of the five terms, plus the drought penalty.
\<close>

lemma evaluateBoard_right_explicit:
  assumes "w ''holes'' = Some wh" "w ''bumpiness'' = Some wb" "w ''aggregateHeight'' = Some wa"
      and "w ''wellClogs'' = Some wc" "w ''lineClearBonus'' = Some wl"
  shows "evaluateBoard g c ''rightWell'' w d hb =
           jsAdd (Num (wh * of_int (getHoles g)
                     + wb * of_int (\<Sum>i \<in> {0..<9} - {8}.
                          \<bar>getColumnHeights g ! i - getColumnHeights g ! (i + 1)\<bar>)
                     + wa * of_int (getAggregateHeight (getColumnHeights g))
                     + wc * of_int (getColumnHeights g ! 9)
                     + wl * of_int (c * c)))
             (droughtPenalty ''rightWell'' w d (getColumnHeights g))"
  using assms
  by (simp add: evaluateBoard_def evaluateWell_def wellBumpinessPenalty_def toNum_def Let_def
      stackBumpiness_right)

lemma evaluateBoard_left_explicit:
  assumes "w ''holes'' = Some wh" "w ''bumpiness'' = Some wb" "w ''aggregateHeight'' = Some wa"
      and "w ''wellClogs'' = Some wc" "w ''lineClearBonus'' = Some wl"
  shows "evaluateBoard g c ''leftWell'' w d hb =
           jsAdd (Num (wh * of_int (getHoles g)
                     + wb * of_int (\<Sum>i \<in> {0..<9} - {0}.
                          \<bar>getColumnHeights g ! i - getColumnHeights g ! (i + 1)\<bar>)
                     + wa * of_int (getAggregateHeight (getColumnHeights g))
                     + wc * of_int (getColumnHeights g ! 0)
                     + wl * of_int (c * c)))
             (droughtPenalty ''leftWell'' w d (getColumnHeights g))"
  using assms
  by (simp add: evaluateBoard_def evaluateWell_def wellBumpinessPenalty_def toNum_def Let_def
      stackBumpiness_left)

lemma evaluateBoard_well_finite:
  assumes "strategy = ''rightWell'' \<or> strategy = ''leftWell''"
      and "w ''holes'' = Some wh" "w ''bumpiness'' = Some wb" "w ''aggregateHeight'' = Some wa"
      and "w ''wellClogs'' = Some wc" "w ''lineClearBonus'' = Some wl"
  shows "\<exists>b. evaluateBoard g c strategy w 0 hb = Num b"
  using assms(1)
    evaluateBoard_right_explicit [OF assms(2-6), of g c 0 hb]
    evaluateBoard_left_explicit [OF assms(2-6), of g c 0 hb]
  by (auto simp: droughtPenalty_zero)

lemma evaluateBoard_well_raised:
  assumes "strategy = ''rightWell'' \<or> strategy = ''leftWell''"
      and "w ''droughtPenalty'' = Some k"
      and "evaluateBoard g c strategy w 0 hb = Num b"
  shows "evaluateBoard g c strategy w d hb =
           Num (b + (if 12 < d \<and> 3 < wellDepth strategy (getColumnHeights g)
                     then of_int (d - 12) * of_int (wellDepth strategy (getColumnHeights g)) * k
                     else 0))"
  using evaluateBoard_well [OF assms(1), of g c w d hb] assms(2,3)
  by (simp add: droughtPenalty_eq toNum_def)

lemma heights_example0:
  "getColumnHeights (wellExampleGrid 0) = [5, 5, 5, 5, 5, 5, 5, 5, 5, 0]"
  by code_simp

lemma heights_example9:
  "getColumnHeights (wellExampleGrid 9) = [5, 5, 5, 5, 5, 5, 5, 5, 5, 9]"
  by code_simp

lemma holes_example0: "getHoles (wellExampleGrid 0) = 0"
  by code_simp

lemma holes_example9: "getHoles (wellExampleGrid 9) = 0"
  by code_simp

lemma evaluateBoard_example0:
  assumes "w ''holes'' = Some wh" "w ''bumpiness'' = Some wb" "w ''aggregateHeight'' = Some wa"
      and "w ''wellClogs'' = Some wc" "w ''lineClearBonus'' = Some wl"
  shows "evaluateBoard (wellExampleGrid 0) c ''rightWell'' w 0 hb =
           Num (wh * 0 + wb * 0 + wa * 45 + wc * 0 + wl * of_int (c * c))"
  unfolding evaluateBoard_right_explicit [OF assms] heights_example0 holes_example0 set9r
  by (simp add: droughtPenalty_zero getAggregateHeight_def)

lemma evaluateBoard_example9:
  assumes "w ''holes'' = Some wh" "w ''bumpiness'' = Some wb" "w ''aggregateHeight'' = Some wa"
      and "w ''wellClogs'' = Some wc" "w ''lineClearBonus'' = Some wl"
  shows "evaluateBoard (wellExampleGrid 9) c ''rightWell'' w 0 hb =
           Num (wh * 0 + wb * 0 + wa * 54 + wc * 9 + wl * of_int (c * c))"
  unfolding evaluateBoard_right_explicit [OF assms] heights_example9 holes_example9 set9r
  by (simp add: droughtPenalty_zero getAggregateHeight_def)

text \<open>
  C3. In well mode the score of \<open>evaluateBoard\<close> is the score at drought 0 plus the
  drought penalty. When the drought count is above 12 and the neighbour column is more
  than 3 higher than the well column, the penalty is (drought - 12) times that
  difference times the weight \<open>droughtPenalty\<close>; otherwise (drought at most 12, or a
  difference of at most 3, which includes every negative difference) the penalty is 0
  and the score is the score at drought 0. The difference is \<open>heights[8] - heights[9]\<close>
  for a right well and \<open>heights[1] - heights[0]\<close> for a left well. When the five weights
  of the other terms are present the score at drought 0 is a finite number \<open>b\<close>, and with
  the weight \<open>droughtPenalty\<close> present the score at drought \<open>d\<close> is the finite number
  \<open>b\<close> plus exactly that penalty.
\<close>

theorem droughtPenalty_contribution:
  assumes "strategy = ''rightWell'' \<or> strategy = ''leftWell''"
  shows "(d > 12 \<and> wellDepth strategy (getColumnHeights g) > 3 \<longrightarrow>
            evaluateBoard g c strategy w d hb =
              jsAdd (evaluateBoard g c strategy w 0 hb)
                (jsMul (Num (of_int ((d - 12) * wellDepth strategy (getColumnHeights g))))
                   (toNum (w ''droughtPenalty''))))
       \<and> (d > 12 \<and> wellDepth strategy (getColumnHeights g) > 3 \<and>
            w ''droughtPenalty'' = Some k \<longrightarrow>
            droughtPenalty strategy w d (getColumnHeights g) =
              Num (of_int (d - 12) * of_int (wellDepth strategy (getColumnHeights g)) * k))
       \<and> (d \<le> 12 \<or> wellDepth strategy (getColumnHeights g) \<le> 3 \<longrightarrow>
            droughtPenalty strategy w d (getColumnHeights g) = Num 0 \<and>
            evaluateBoard g c strategy w d hb = evaluateBoard g c strategy w 0 hb)
       \<and> wellDepth ''rightWell'' (getColumnHeights g) =
           getColumnHeights g ! 8 - getColumnHeights g ! 9
       \<and> wellDepth ''leftWell'' (getColumnHeights g) =
           getColumnHeights g ! 1 - getColumnHeights g ! 0
       \<and> (w ''holes'' = Some wh \<and> w ''bumpiness'' = Some wb \<and>
          w ''aggregateHeight'' = Some wa \<and> w ''wellClogs'' = Some wc \<and>
          w ''lineClearBonus'' = Some wl \<longrightarrow>
            (\<exists>b. evaluateBoard g c strategy w 0 hb = Num b))
       \<and> (w ''droughtPenalty'' = Some k \<and>
          evaluateBoard g c ''rightWell'' w 0 hb = Num b \<longrightarrow>
            evaluateBoard g c ''rightWell'' w d hb =
              Num (b + (if 12 < d \<and> 3 < getColumnHeights g ! 8 - getColumnHeights g ! 9
                        then of_int (d - 12) *
                             of_int (getColumnHeights g ! 8 - getColumnHeights g ! 9) * k
                        else 0)))
       \<and> (w ''droughtPenalty'' = Some k \<and>
          evaluateBoard g c ''leftWell'' w 0 hb = Num b \<longrightarrow>
            evaluateBoard g c ''leftWell'' w d hb =
              Num (b + (if 12 < d \<and> 3 < getColumnHeights g ! 1 - getColumnHeights g ! 0
                        then of_int (d - 12) *
                             of_int (getColumnHeights g ! 1 - getColumnHeights g ! 0) * k
                        else 0)))"
proof (intro conjI impI)
  assume "d > 12 \<and> wellDepth strategy (getColumnHeights g) > 3"
  then show "evaluateBoard g c strategy w d hb =
              jsAdd (evaluateBoard g c strategy w 0 hb)
                (jsMul (Num (of_int ((d - 12) * wellDepth strategy (getColumnHeights g))))
                   (toNum (w ''droughtPenalty'')))"
    using evaluateBoard_well [OF assms, of g c w d hb] by (simp add: droughtPenalty_eq)
next
  assume "d > 12 \<and> wellDepth strategy (getColumnHeights g) > 3 \<and>
          w ''droughtPenalty'' = Some k"
  then show "droughtPenalty strategy w d (getColumnHeights g) =
              Num (of_int (d - 12) * of_int (wellDepth strategy (getColumnHeights g)) * k)"
    by (simp add: droughtPenalty_eq toNum_def)
next
  assume a: "d \<le> 12 \<or> wellDepth strategy (getColumnHeights g) \<le> 3"
  then show z: "droughtPenalty strategy w d (getColumnHeights g) = Num 0"
    by (auto simp: droughtPenalty_eq)
  show "evaluateBoard g c strategy w d hb = evaluateBoard g c strategy w 0 hb"
    using evaluateBoard_well [OF assms, of g c w d hb] z by (simp add: jsAdd_zero_right)
next
  show "wellDepth ''rightWell'' (getColumnHeights g) =
          getColumnHeights g ! 8 - getColumnHeights g ! 9"
    by (simp add: wellDepth_def)
next
  show "wellDepth ''leftWell'' (getColumnHeights g) =
          getColumnHeights g ! 1 - getColumnHeights g ! 0"
    by (simp add: wellDepth_def)
next
  assume "w ''holes'' = Some wh \<and> w ''bumpiness'' = Some wb \<and>
          w ''aggregateHeight'' = Some wa \<and> w ''wellClogs'' = Some wc \<and>
          w ''lineClearBonus'' = Some wl"
  then show "\<exists>b. evaluateBoard g c strategy w 0 hb = Num b"
    using evaluateBoard_well_finite [OF assms, of w wh wb wa wc wl g c hb] by simp
next
  assume a: "w ''droughtPenalty'' = Some k \<and> evaluateBoard g c ''rightWell'' w 0 hb = Num b"
  have "evaluateBoard g c ''rightWell'' w d hb =
           Num (b + (if 12 < d \<and> 3 < wellDepth ''rightWell'' (getColumnHeights g)
                     then of_int (d - 12) *
                          of_int (wellDepth ''rightWell'' (getColumnHeights g)) * k
                     else 0))"
    using a by (intro evaluateBoard_well_raised) simp_all
  then show "evaluateBoard g c ''rightWell'' w d hb =
              Num (b + (if 12 < d \<and> 3 < getColumnHeights g ! 8 - getColumnHeights g ! 9
                        then of_int (d - 12) *
                             of_int (getColumnHeights g ! 8 - getColumnHeights g ! 9) * k
                        else 0))"
    by (simp add: wellDepth_def)
next
  assume a: "w ''droughtPenalty'' = Some k \<and> evaluateBoard g c ''leftWell'' w 0 hb = Num b"
  have "evaluateBoard g c ''leftWell'' w d hb =
           Num (b + (if 12 < d \<and> 3 < wellDepth ''leftWell'' (getColumnHeights g)
                     then of_int (d - 12) *
                          of_int (wellDepth ''leftWell'' (getColumnHeights g)) * k
                     else 0))"
    using a by (intro evaluateBoard_well_raised) simp_all
  then show "evaluateBoard g c ''leftWell'' w d hb =
              Num (b + (if 12 < d \<and> 3 < getColumnHeights g ! 1 - getColumnHeights g ! 0
                        then of_int (d - 12) *
                             of_int (getColumnHeights g ! 1 - getColumnHeights g ! 0) * k
                        else 0))"
    by (simp add: wellDepth_def)
qed

lemma score_example0_drought0:
  "evaluateBoard (wellExampleGrid 0) 0 ''rightWell'' BASE_WELL_WEIGHTS 0 None = Num 18"
  by code_simp

theorem droughtPenalty_contribution_witness:
  "droughtPenalty ''rightWell'' BASE_WELL_WEIGHTS 15 (getColumnHeights (wellExampleGrid 0))
     = Num (3 * 5 * 0.08)
   \<and> evaluateBoard (wellExampleGrid 9) 0 ''rightWell'' BASE_WELL_WEIGHTS 15 None
     = evaluateBoard (wellExampleGrid 9) 0 ''rightWell'' BASE_WELL_WEIGHTS 0 None
   \<and> evaluateBoard (wellExampleGrid 0) 0 ''rightWell'' BASE_WELL_WEIGHTS 0 None = Num 18
   \<and> evaluateBoard (wellExampleGrid 0) 0 ''rightWell'' BASE_WELL_WEIGHTS 15 None
     = Num (18 + 3 * 5 * 0.08)"
proof -
  have d0: "wellDepth ''rightWell'' (getColumnHeights (wellExampleGrid 0)) = 5"
    by (simp add: heights_example0 wellDepth_def)
  have d9: "wellDepth ''rightWell'' (getColumnHeights (wellExampleGrid 9)) = - 4"
    by (simp add: heights_example9 wellDepth_def)
  have k: "BASE_WELL_WEIGHTS ''droughtPenalty'' = Some 0.08"
    "BASE_WELL_WEIGHTS ''holes'' = Some 4" "BASE_WELL_WEIGHTS ''bumpiness'' = Some 0.25"
    "BASE_WELL_WEIGHTS ''aggregateHeight'' = Some 0.4"
    "BASE_WELL_WEIGHTS ''wellClogs'' = Some 8" "BASE_WELL_WEIGHTS ''lineClearBonus'' = Some (- 5)"
    by (simp_all add: BASE_WELL_WEIGHTS_def)
  have h: "getColumnHeights (wellExampleGrid 0) ! 8 - getColumnHeights (wellExampleGrid 0) ! 9 = 5"
    by (simp add: heights_example0)
  show ?thesis
    using droughtPenalty_contribution
            [of "''rightWell''" 15 "wellExampleGrid 0" 0 BASE_WELL_WEIGHTS None "0.08"
               4 "0.25" "0.4" 8 "- 5" 18]
          droughtPenalty_contribution
            [of "''rightWell''" 15 "wellExampleGrid 9" 0 BASE_WELL_WEIGHTS None "0.08"
               4 "0.25" "0.4" 8 "- 5" 18]
          score_example0_drought0
    by (simp add: d0 d9 k h toNum_def)
qed

text \<open>
  C4. The bumpiness sum of the well branch runs over the adjacent pairs (i, i + 1) for
  i from 0 to 8 except i = 8 for a right well and except i = 0 for a left well, and the
  bumpiness term of the score of \<open>evaluateBoard\<close> is the weight \<open>bumpiness\<close> times that
  sum. The right-well grid with heights [5, 5, 5, 5, 5, 5, 5, 5, 5, 0] and the one with
  the well column filled to height 9 have the same bumpiness sum and the same bumpiness
  penalty, for every weight vector: their scores have the bumpiness term
  \<open>weights.bumpiness * 0\<close>.
\<close>

theorem stackBumpiness_excludes_well_pair:
  "stackBumpiness ''rightWell'' hs = (\<Sum>i \<in> {0..<9} - {8}. \<bar>hs ! i - hs ! (i + 1)\<bar>)
   \<and> stackBumpiness ''leftWell'' hs = (\<Sum>i \<in> {0..<9} - {0}. \<bar>hs ! i - hs ! (i + 1)\<bar>)
   \<and> getColumnHeights (wellExampleGrid 0) = [5, 5, 5, 5, 5, 5, 5, 5, 5, 0]
   \<and> getColumnHeights (wellExampleGrid 9) = [5, 5, 5, 5, 5, 5, 5, 5, 5, 9]
   \<and> stackBumpiness ''rightWell'' (getColumnHeights (wellExampleGrid 0)) =
       stackBumpiness ''rightWell'' (getColumnHeights (wellExampleGrid 9))
   \<and> wellBumpinessPenalty ''rightWell'' w (getColumnHeights (wellExampleGrid 0)) =
       wellBumpinessPenalty ''rightWell'' w (getColumnHeights (wellExampleGrid 9))
   \<and> (w ''holes'' = Some wh \<and> w ''bumpiness'' = Some wb \<and>
      w ''aggregateHeight'' = Some wa \<and> w ''wellClogs'' = Some wc \<and>
      w ''lineClearBonus'' = Some wl \<longrightarrow>
        evaluateBoard g c ''rightWell'' w d hb =
          jsAdd (Num (wh * of_int (getHoles g)
                    + wb * of_int (\<Sum>i \<in> {0..<9} - {8}.
                         \<bar>getColumnHeights g ! i - getColumnHeights g ! (i + 1)\<bar>)
                    + wa * of_int (getAggregateHeight (getColumnHeights g))
                    + wc * of_int (getColumnHeights g ! 9)
                    + wl * of_int (c * c)))
            (droughtPenalty ''rightWell'' w d (getColumnHeights g))
        \<and> evaluateBoard g c ''leftWell'' w d hb =
          jsAdd (Num (wh * of_int (getHoles g)
                    + wb * of_int (\<Sum>i \<in> {0..<9} - {0}.
                         \<bar>getColumnHeights g ! i - getColumnHeights g ! (i + 1)\<bar>)
                    + wa * of_int (getAggregateHeight (getColumnHeights g))
                    + wc * of_int (getColumnHeights g ! 0)
                    + wl * of_int (c * c)))
            (droughtPenalty ''leftWell'' w d (getColumnHeights g))
        \<and> evaluateBoard (wellExampleGrid 0) c ''rightWell'' w 0 hb =
            Num (wh * 0 + wb * 0 + wa * 45 + wc * 0 + wl * of_int (c * c))
        \<and> evaluateBoard (wellExampleGrid 9) c ''rightWell'' w 0 hb =
            Num (wh * 0 + wb * 0 + wa * 54 + wc * 9 + wl * of_int (c * c)))"
proof -
  have "stackBumpiness ''rightWell'' (getColumnHeights (wellExampleGrid 0)) =
        stackBumpiness ''rightWell'' (getColumnHeights (wellExampleGrid 9))"
    unfolding stackBumpiness_right set9r heights_example0 heights_example9 by simp
  then have first: "stackBumpiness ''rightWell'' hs =
       (\<Sum>i \<in> {0..<9} - {8}. \<bar>hs ! i - hs ! (i + 1)\<bar>)
   \<and> stackBumpiness ''leftWell'' hs = (\<Sum>i \<in> {0..<9} - {0}. \<bar>hs ! i - hs ! (i + 1)\<bar>)
   \<and> getColumnHeights (wellExampleGrid 0) = [5, 5, 5, 5, 5, 5, 5, 5, 5, 0]
   \<and> getColumnHeights (wellExampleGrid 9) = [5, 5, 5, 5, 5, 5, 5, 5, 5, 9]
   \<and> stackBumpiness ''rightWell'' (getColumnHeights (wellExampleGrid 0)) =
       stackBumpiness ''rightWell'' (getColumnHeights (wellExampleGrid 9))
   \<and> wellBumpinessPenalty ''rightWell'' w (getColumnHeights (wellExampleGrid 0)) =
       wellBumpinessPenalty ''rightWell'' w (getColumnHeights (wellExampleGrid 9))"
    by (simp only: stackBumpiness_right stackBumpiness_left heights_example0
        heights_example9 wellBumpinessPenalty_def simp_thms)
  have second: "evaluateBoard g c ''rightWell'' w d hb =
          jsAdd (Num (wh * of_int (getHoles g)
                    + wb * of_int (\<Sum>i \<in> {0..<9} - {8}.
                         \<bar>getColumnHeights g ! i - getColumnHeights g ! (i + 1)\<bar>)
                    + wa * of_int (getAggregateHeight (getColumnHeights g))
                    + wc * of_int (getColumnHeights g ! 9)
                    + wl * of_int (c * c)))
            (droughtPenalty ''rightWell'' w d (getColumnHeights g))
        \<and> evaluateBoard g c ''leftWell'' w d hb =
          jsAdd (Num (wh * of_int (getHoles g)
                    + wb * of_int (\<Sum>i \<in> {0..<9} - {0}.
                         \<bar>getColumnHeights g ! i - getColumnHeights g ! (i + 1)\<bar>)
                    + wa * of_int (getAggregateHeight (getColumnHeights g))
                    + wc * of_int (getColumnHeights g ! 0)
                    + wl * of_int (c * c)))
            (droughtPenalty ''leftWell'' w d (getColumnHeights g))
        \<and> evaluateBoard (wellExampleGrid 0) c ''rightWell'' w 0 hb =
            Num (wh * 0 + wb * 0 + wa * 45 + wc * 0 + wl * of_int (c * c))
        \<and> evaluateBoard (wellExampleGrid 9) c ''rightWell'' w 0 hb =
            Num (wh * 0 + wb * 0 + wa * 54 + wc * 9 + wl * of_int (c * c))"
    if k: "w ''holes'' = Some wh \<and> w ''bumpiness'' = Some wb \<and>
      w ''aggregateHeight'' = Some wa \<and> w ''wellClogs'' = Some wc \<and>
      w ''lineClearBonus'' = Some wl"
  proof (intro conjI)
    show "evaluateBoard g c ''rightWell'' w d hb =
          jsAdd (Num (wh * of_int (getHoles g)
                    + wb * of_int (\<Sum>i \<in> {0..<9} - {8}.
                         \<bar>getColumnHeights g ! i - getColumnHeights g ! (i + 1)\<bar>)
                    + wa * of_int (getAggregateHeight (getColumnHeights g))
                    + wc * of_int (getColumnHeights g ! 9)
                    + wl * of_int (c * c)))
            (droughtPenalty ''rightWell'' w d (getColumnHeights g))"
      using k by (intro evaluateBoard_right_explicit) simp_all
    show "evaluateBoard g c ''leftWell'' w d hb =
          jsAdd (Num (wh * of_int (getHoles g)
                    + wb * of_int (\<Sum>i \<in> {0..<9} - {0}.
                         \<bar>getColumnHeights g ! i - getColumnHeights g ! (i + 1)\<bar>)
                    + wa * of_int (getAggregateHeight (getColumnHeights g))
                    + wc * of_int (getColumnHeights g ! 0)
                    + wl * of_int (c * c)))
            (droughtPenalty ''leftWell'' w d (getColumnHeights g))"
      using k by (intro evaluateBoard_left_explicit) simp_all
    show "evaluateBoard (wellExampleGrid 0) c ''rightWell'' w 0 hb =
            Num (wh * 0 + wb * 0 + wa * 45 + wc * 0 + wl * of_int (c * c))"
      using k by (intro evaluateBoard_example0) simp_all
    show "evaluateBoard (wellExampleGrid 9) c ''rightWell'' w 0 hb =
            Num (wh * 0 + wb * 0 + wa * 54 + wc * 9 + wl * of_int (c * c))"
      using k by (intro evaluateBoard_example9) simp_all
  qed
  from first second show ?thesis by blast
qed

theorem stackBumpiness_excludes_well_pair_witness:
  "stackBumpiness ''rightWell'' [5, 5, 5, 5, 5, 5, 5, 5, 5, 0] = 0
   \<and> stackBumpiness ''leftWell'' [0, 5, 5, 5, 5, 5, 5, 5, 5, 5] = 0
   \<and> stackBumpiness ''leftWell'' [5, 5, 5, 5, 5, 5, 5, 5, 5, 0] = 5
   \<and> evaluateBoard (wellExampleGrid 0) 0 ''rightWell'' BASE_WELL_WEIGHTS 0 None = Num 18
   \<and> evaluateBoard (wellExampleGrid 9) 0 ''rightWell'' BASE_WELL_WEIGHTS 0 None = Num (468 / 5)"
proof -
  have k: "BASE_WELL_WEIGHTS ''holes'' = Some 4" "BASE_WELL_WEIGHTS ''bumpiness'' = Some 0.25"
    "BASE_WELL_WEIGHTS ''aggregateHeight'' = Some 0.4"
    "BASE_WELL_WEIGHTS ''wellClogs'' = Some 8" "BASE_WELL_WEIGHTS ''lineClearBonus'' = Some (- 5)"
    by (simp_all add: BASE_WELL_WEIGHTS_def)
  show ?thesis
    using stackBumpiness_excludes_well_pair [of "[5, 5, 5, 5, 5, 5, 5, 5, 5, 0]" BASE_WELL_WEIGHTS
        4 "0.25" "0.4" 8 "- 5" "wellExampleGrid 0" 0 0 None]
      stackBumpiness_excludes_well_pair [of "[0, 5, 5, 5, 5, 5, 5, 5, 5, 5]" BASE_WELL_WEIGHTS
        4 "0.25" "0.4" 8 "- 5" "wellExampleGrid 0" 0 0 None]
    by (simp add: set9r set9l k)
qed

section \<open>Board evaluation: missing weights\<close>

lemma evaluateBoard_survival_missing_key:
  assumes "strategy \<noteq> ''rightWell''" "strategy \<noteq> ''leftWell''" "w k = None"
  shows "evaluateBoard g c strategy (w(k \<mapsto> 0)) d hb = evaluateBoard g c strategy w d hb"
proof -
  have h: "orZero ((w(k \<mapsto> 0)) k') = orZero (w k')" for k'
    using assms(3) by (simp add: orZero_def)
  show ?thesis
    unfolding evaluateBoard_def evaluateSurvival_def h
    by (simp only: assms(1,2) simp_thms if_False)
qed

lemma jsAdd_NaN_right: "jsAdd x NaN = NaN"
  by (cases x) simp_all

lemma evaluateBoard_well_missing_key:
  assumes "strategy = ''rightWell'' \<or> strategy = ''leftWell''"
      and "k \<in> {''holes'', ''bumpiness'', ''aggregateHeight'', ''wellClogs'', ''lineClearBonus''}"
      and "w k = None"
  shows "evaluateBoard g c strategy w d hb = NaN"
proof -
  have "toNum (w k) = NaN" using assms(3) by (simp add: toNum_def)
  then show ?thesis
    using assms(1,2)
    by (auto simp: evaluateBoard_def evaluateWell_def wellBumpinessPenalty_def Let_def
        jsAdd_NaN_right)
qed

text \<open>
  C1. The survival branch reads every weight as \<open>weights.k || 0\<close> (lemma
  \<open>evaluateBoard_survival_missing_key\<close>); the well branch multiplies by \<open>weights.k\<close>
  itself, so that a missing key makes the score NaN (lemma
  \<open>evaluateBoard_well_missing_key\<close>). With the survival preset, which has no
  \<open>wellClogs\<close> and no \<open>lineClearBonus\<close>, the well branch on the empty grid gives
  NaN, and gives 0 once the two keys are present with coefficient 0.
\<close>

theorem evaluateBoard_well_missing_key_NaN:
  "BASE_SURVIVAL_WEIGHTS ''wellClogs'' = None
   \<and> BASE_SURVIVAL_WEIGHTS ''lineClearBonus'' = None
   \<and> evaluateBoard createEmptyGrid 0 ''rightWell'' BASE_SURVIVAL_WEIGHTS 0 None = NaN
   \<and> evaluateBoard createEmptyGrid 0 ''rightWell''
        (BASE_SURVIVAL_WEIGHTS(''wellClogs'' \<mapsto> 0, ''lineClearBonus'' \<mapsto> 0)) 0 None = Num 0"
proof -
  have "evaluateBoard createEmptyGrid 0 ''rightWell'' BASE_SURVIVAL_WEIGHTS 0 None = NaN"
    by code_simp
  moreover have "evaluateBoard createEmptyGrid 0 ''rightWell''
        (BASE_SURVIVAL_WEIGHTS(''wellClogs'' \<mapsto> 0, ''lineClearBonus'' \<mapsto> 0)) 0 None = Num 0"
    by code_simp
  ultimately show ?thesis by (simp add: BASE_SURVIVAL_WEIGHTS_def)
qed

section \<open>Weight mutation\<close>




text \<open>
  The pass for a positive base value and the draw 0, when the products with the
  constants are exact: \<open>c\<close> is the rounded \<open>1 + change\<close>, \<open>m\<close> the rounded new value and
  \<open>q\<close> the rounded product that the guard compares with 0.
\<close>

lemma mutateValue_draw_zero:
  assumes "0 < b" "fl (- (1 / 2)) = Num (- (1 / 2))" "fl (- 1) = Num (- 1)"
      and "fl (- f) = Num (- f)" "fl (1 - f) = Num c" "fl (b * c) = Num m" "fl (b * m) = Num q"
  shows "mutateValue fl 0 f b = (if q < 0 then Num b else Num m)"
proof -
  have 1: "fl (0 - 0.5) = Num (- (1 / 2))" using assms(2) by simp
  have 2: "fMul fl (fl (0 - 0.5)) (Num 2) = Num (- 1)"
    unfolding 1 using assms(3) by (simp add: fMul_def)
  have 3: "fMul fl (Num (- 1)) (Num f) = Num (- f)"
    using assms(4) by (simp add: fMul_def)
  have 4: "fAdd fl (Num 1) (Num (- f)) = Num c"
    using assms(5) by (simp add: fAdd_def)
  have 5: "fMul fl (Num b) (Num c) = Num m"
    using assms(6) by (simp add: fMul_def)
  have 6: "fMul fl (Num b) (Num m) = Num q"
    using assms(7) by (simp add: fMul_def)
  have n: "\<not> b < 0" using assms(1) by simp
  have nv: "newValue fl 0 f b = Num m"
    unfolding newValue_def Let_def by (simp only: n if_False 2 3 4 5)
  have gp: "guardProduct fl 0 f b = Num q"
    unfolding guardProduct_def nv by (rule 6)
  show ?thesis
    using assms(1) by (simp add: mutateValue_def nv gp)
qed

text \<open>
  The guard misses a product that underflows: with the draw 0 and mutation factor 3
  the new value is \<open>- 2 b\<close>, and when \<open>b\<close> is so small that \<open>b * (- 2 b)\<close> rounds to zero
  the negative value is kept. For \<open>b = 2 ^ - 600\<close> the result is \<open>- 2 ^ - 599\<close>.
\<close>

lemma mutateValue_guard_underflow:
  "mutateValue sampleRounding 0 3 (1 / 2 ^ 600) = Num (- (1 / 2 ^ 599))"
proof -
  have "mutateValue sampleRounding 0 3 (1 / 2 ^ 600) =
        (if (0::real) < 0 then Num (1 / 2 ^ 600) else Num (1 / 2 ^ 600 * - 2))"
    by (rule mutateValue_draw_zero [where c = "- 2"]) (simp_all add: sampleRounding_def)
  then show ?thesis by simp
qed





section \<open>The search loop\<close>

text \<open>
  Two proof rules for the loop: a property of the search state that every iteration
  keeps holds when the loop returns, and two loops with the same body return the same.
\<close>

lemma bfs_invariant:
  assumes run: "bfs tb g nx s w d st = Some y"
      and init: "I st"
      and step: "\<And>n rest st st'. I st \<Longrightarrow> queue st = n # rest \<Longrightarrow>
                   bfsStep tb g nx s w d n (st\<lparr>queue := rest\<rparr>) = Some st' \<Longrightarrow> I st'"
  shows "I y \<and> queue y = []"
proof -
  define P where "P = (\<lambda>tb' g' nx' s' w' d' st' y'.
     (tb', g', nx', s', w', d') = (tb, g, nx, s, w, d) \<longrightarrow> I st' \<longrightarrow> I y' \<and> queue y' = [])"
  have "P tb g nx s w d st y"
  proof (rule bfs.raw_induct [where P = P, OF _ run])
    fix bfs' tb' g' nx' s' w' d' st' y'
    assume IH: "\<And>tb g nx s w d st y. bfs' tb g nx s w d st = Some y \<Longrightarrow> P tb g nx s w d st y"
      and body: "(case queue st' of [] \<Rightarrow> Some st'
          | n # rest \<Rightarrow>
              (case bfsStep tb' g' nx' s' w' d' n (st'\<lparr>queue := rest\<rparr>) of None \<Rightarrow> None
               | Some st'' \<Rightarrow> bfs' tb' g' nx' s' w' d' st'')) = Some y'"
    show "P tb' g' nx' s' w' d' st' y'"
      unfolding P_def
    proof (intro impI)
      assume eq: "(tb', g', nx', s', w', d') = (tb, g, nx, s, w, d)" and i: "I st'"
      show "I y' \<and> queue y' = []"
      proof (cases "queue st'")
        case Nil
        with body i show ?thesis by auto
      next
        case (Cons n rest)
        with body obtain st'' where
          s1: "bfsStep tb' g' nx' s' w' d' n (st'\<lparr>queue := rest\<rparr>) = Some st''" and
          s2: "bfs' tb' g' nx' s' w' d' st'' = Some y'"
          by (auto split: option.splits)
        from s1 eq have "bfsStep tb g nx s w d n (st'\<lparr>queue := rest\<rparr>) = Some st''" by simp
        from step [OF i Cons this] have "I st''" .
        with IH [OF s2] eq show ?thesis by (simp add: P_def)
      qed
    qed
  qed
  with init show ?thesis by (simp add: P_def)
qed

lemma bfs_step_cong_le:
  assumes run: "bfs tb g nx s w d st = Some y"
      and eq: "\<And>n st. bfsStep tb g nx s w d n st = bfsStep tb2 g2 nx2 s2 w2 d2 n st"
  shows "bfs tb2 g2 nx2 s2 w2 d2 st = Some y"
proof -
  define P where "P = (\<lambda>tb' g' nx' s' w' d' st' y'.
     (tb', g', nx', s', w', d') = (tb, g, nx, s, w, d) \<longrightarrow> bfs tb2 g2 nx2 s2 w2 d2 st' = Some y')"
  have "P tb g nx s w d st y"
  proof (rule bfs.raw_induct [where P = P, OF _ run])
    fix bfs' tb' g' nx' s' w' d' st' y'
    assume IH: "\<And>tb g nx s w d st y. bfs' tb g nx s w d st = Some y \<Longrightarrow> P tb g nx s w d st y"
      and body: "(case queue st' of [] \<Rightarrow> Some st'
          | n # rest \<Rightarrow>
              (case bfsStep tb' g' nx' s' w' d' n (st'\<lparr>queue := rest\<rparr>) of None \<Rightarrow> None
               | Some st'' \<Rightarrow> bfs' tb' g' nx' s' w' d' st'')) = Some y'"
    show "P tb' g' nx' s' w' d' st' y'"
      unfolding P_def
    proof (intro impI)
      assume e: "(tb', g', nx', s', w', d') = (tb, g, nx, s, w, d)"
      show "bfs tb2 g2 nx2 s2 w2 d2 st' = Some y'"
      proof (cases "queue st'")
        case Nil
        with body show ?thesis by (subst bfs.simps) auto
      next
        case (Cons n rest)
        with body obtain st'' where
          s1: "bfsStep tb' g' nx' s' w' d' n (st'\<lparr>queue := rest\<rparr>) = Some st''" and
          s2: "bfs' tb' g' nx' s' w' d' st'' = Some y'"
          by (auto split: option.splits)
        from s1 e eq have "bfsStep tb2 g2 nx2 s2 w2 d2 n (st'\<lparr>queue := rest\<rparr>) = Some st''"
          by simp
        moreover from IH [OF s2] e have "bfs tb2 g2 nx2 s2 w2 d2 st'' = Some y'"
          by (simp add: P_def)
        ultimately show ?thesis using Cons by (subst bfs.simps) simp
      qed
    qed
  qed
  then show ?thesis by (simp add: P_def)
qed

lemma bfs_step_cong:
  assumes "\<And>n st. bfsStep tb g nx s w d n st = bfsStep tb2 g2 nx2 s2 w2 d2 n st"
  shows "bfs tb g nx s w d st = bfs tb2 g2 nx2 s2 w2 d2 st"
proof (cases "bfs tb g nx s w d st")
  case None
  show ?thesis
  proof (cases "bfs tb2 g2 nx2 s2 w2 d2 st")
    case None
    with \<open>bfs tb g nx s w d st = None\<close> show ?thesis by simp
  next
    case (Some y)
    from bfs_step_cong_le [OF Some] assms have "bfs tb g nx s w d st = Some y" by simp
    with None show ?thesis by simp
  qed
next
  case (Some y)
  from bfs_step_cong_le [OF Some] assms show ?thesis using Some by simp
qed

lemma enqueue_best:
  "bestPath (enqueue pth a st) = bestPath st \<and> bestTarget (enqueue pth a st) = bestTarget st
   \<and> bestScore (enqueue pth a st) = bestScore st"
  by (auto simp: enqueue_def split: prod.splits option.splits)

lemma fold_enqueue_best:
  "bestPath (fold (enqueue pth) as st) = bestPath st \<and>
   bestTarget (fold (enqueue pth) as st) = bestTarget st \<and>
   bestScore (fold (enqueue pth) as st) = bestScore st"
  by (induction as arbitrary: st) (simp_all add: enqueue_best)

lemma evaluateBoard_other:
  "s \<noteq> ''rightWell'' \<Longrightarrow> s \<noteq> ''leftWell'' \<Longrightarrow>
   evaluateBoard g c s w d hb = Num (evaluateSurvival g c w hb)"
  by (simp add: evaluateBoard_def)

lemma totalScore_explicit:
  "totalScore tb g nx s w d q =
     (case simulateLineClearing
             (lockShape g (ptype q) (px q) (py q) (blockCoords tb (ptype q) ! rotation q)) of
        (g1, c) \<Rightarrow>
          map_option
            (\<lambda>next. jsAdd
               (evaluateBoard g1 c s w d
                  (Some (getHoles (lockShape g (ptype q) (px q) (py q)
                                     (blockCoords tb (ptype q) ! rotation q)))))
               (jsMul next (Num (lookaheadWeight w))))
            (evaluateAllPossiblePlacements tb g1 nx s w d))"
  by (simp add: totalScore_def Let_def split: prod.splits option.splits)

lemma placementScore_explicit:
  "placementScore tb g p s w d =
     (case simulateLineClearing
             (lockShape g (ptype p) (px p) (py p) (blockCoords tb (ptype p) ! rotation p)) of
        (g1, c) \<Rightarrow>
          evaluateBoard g1 c s w d
            (Some (getHoles (lockShape g (ptype p) (px p) (py p)
                               (blockCoords tb (ptype p) ! rotation p)))))"
  by (simp add: placementScore_def Let_def split: prod.splits)

lemma foldOpt_inv:
  assumes "foldOpt f xs s = Some s'" and "I s"
      and "\<And>a s s'. a \<in> set xs \<Longrightarrow> I s \<Longrightarrow> f a s = Some s' \<Longrightarrow> I s'"
  shows "I s'"
  using assms
proof (induction xs arbitrary: s)
  case Nil
  then show ?case by simp
next
  case (Cons a xs)
  from Cons.prems(1) obtain s1 where s1: "f a s = Some s1" and r: "foldOpt f xs s1 = Some s'"
    by (auto split: option.splits)
  have i1: "I s1" using Cons.prems(3) [of a s s1] Cons.prems(2) s1 by simp
  show ?case
  proof (rule Cons.IH [OF r i1])
    fix b t t'
    assume "b \<in> set xs" "I t" "f b t = Some t'"
    then show "I t'" using Cons.prems(3) [of b t t'] by simp
  qed
qed

lemma tryColumn_placement:
  assumes "tryColumn tb g t rot s w d x st = Some st'" and "Q (snd st)"
      and "\<And>y. dropLoop tb g \<lparr>ptype = t, rotation = rot, px = x, py = 0\<rparr> 0 = Some y \<Longrightarrow>
             Q (placementScore tb g \<lparr>ptype = t, rotation = rot, px = x, py = y\<rparr> s w d)"
  shows "Q (snd st')"
proof (cases st)
  case (Pair ty b)
  show ?thesis
  proof (cases "case ty of None \<Rightarrow> collidesWithGridNoY tb g t rot x
          | Some y0 \<Rightarrow> collidesWithGrid tb g \<lparr>ptype = t, rotation = rot, px = x, py = y0\<rparr> 0 0 0")
    case True
    with assms(1) Pair have "st' = st" by (simp add: tryColumn_def)
    with assms(2) show ?thesis by simp
  next
    case False
    with assms(1) Pair obtain y where
      y: "dropLoop tb g \<lparr>ptype = t, rotation = rot, px = x, py = 0\<rparr> 0 = Some y" and
      st': "st' = (Some y,
              if jsLess (placementScore tb g \<lparr>ptype = t, rotation = rot, px = x, py = y\<rparr> s w d) b
              then placementScore tb g \<lparr>ptype = t, rotation = rot, px = x, py = y\<rparr> s w d
              else b)"
      by (auto simp: tryColumn_def Let_def split: option.splits)
    from assms(3) [OF y] assms(2) Pair st' show ?thesis by simp
  qed
qed

lemma tryRotation_placement:
  assumes "tryRotation tb g t s w d rot b = Some b'" and "Q b"
      and "\<And>x y. - 2 \<le> x \<Longrightarrow> x < int COLS \<Longrightarrow>
             dropLoop tb g \<lparr>ptype = t, rotation = rot, px = x, py = 0\<rparr> 0 = Some y \<Longrightarrow>
             Q (placementScore tb g \<lparr>ptype = t, rotation = rot, px = x, py = y\<rparr> s w d)"
  shows "Q b'"
proof -
  from assms(1) obtain st' where
    f: "foldOpt (tryColumn tb g t rot s w d) [- 2 .. int COLS - 1] (None, b) = Some st'" and
    b': "b' = snd st'"
    by (auto simp: tryRotation_def)
  have "Q (snd st')"
  proof (rule foldOpt_inv [OF f, where I = "\<lambda>st. Q (snd st)"])
    show "Q (snd (None, b))" using assms(2) by simp
  next
    fix a st st1
    assume a: "a \<in> set [- 2 .. int COLS - 1]" and q: "Q (snd st)"
      and t: "tryColumn tb g t rot s w d a st = Some st1"
    from a have r: "- 2 \<le> a" "a < int COLS" by simp_all
    show "Q (snd st1)"
      by (rule tryColumn_placement [where Q = Q, OF t q]) (rule assms(3) [OF r])
  qed
  with b' show ?thesis by simp
qed

text \<open>
  Every result of the lookahead for a next piece is \<open>Infinity\<close> or the score of one of
  the placements that its loops try: a rotation of the shape table, a column from
  \<open>- 2\<close> to 9 and the row where the drop loop stops.
\<close>

lemma evaluateAllPossiblePlacements_placement:
  assumes "evaluateAllPossiblePlacements tb g (Some t) s w d = Some r" and "Q PosInf"
      and "\<And>rot x y. rot < length (blockCoords tb t) \<Longrightarrow> - 2 \<le> x \<Longrightarrow> x < int COLS \<Longrightarrow>
             dropLoop tb g \<lparr>ptype = t, rotation = rot, px = x, py = 0\<rparr> 0 = Some y \<Longrightarrow>
             Q (placementScore tb g \<lparr>ptype = t, rotation = rot, px = x, py = y\<rparr> s w d)"
  shows "Q r"
proof -
  from assms(1) have
    f: "foldOpt (tryRotation tb g t s w d) [0..<length (blockCoords tb t)] PosInf = Some r"
    by (simp add: evaluateAllPossiblePlacements_def)
  show ?thesis
  proof (rule foldOpt_inv [OF f, where I = Q])
    show "Q PosInf" by (rule assms(2))
  next
    fix a b b'
    assume a: "a \<in> set [0..<length (blockCoords tb t)]" and q: "Q b"
      and t: "tryRotation tb g t s w d a b = Some b'"
    from a have r: "a < length (blockCoords tb t)" by simp
    show "Q b'"
      by (rule tryRotation_placement [where Q = Q, OF t q]) (rule assms(3) [OF r])
  qed
qed

lemma considerTerminal_scored:
  assumes "considerTerminal tb g nx s w d n st = Some st'"
      and "collidesWithGrid tb g (fst n) 0 1 0"
  shows "\<exists>tot. totalScore tb g nx s w d (fst n) = Some tot \<and>
           st' = (if jsLess tot (bestScore st)
                  then st\<lparr>bestScore := tot, bestPath := Some (snd n @ [hardD]),
                          bestTarget := Some (fst n)\<rparr>
                  else st)"
  using assms by (auto simp: considerTerminal_def split: option.splits)

lemma bfsStep_best_score:
  assumes "bfsStep tb g nx s w d n st = Some st'"
      and "\<forall>q. bestTarget st = Some q \<longrightarrow>
             collidesWithGrid tb g q 0 1 0 \<and> totalScore tb g nx s w d q = Some (bestScore st)"
  shows "\<forall>q. bestTarget st' = Some q \<longrightarrow>
             collidesWithGrid tb g q 0 1 0 \<and> totalScore tb g nx s w d q = Some (bestScore st')"
proof -
  from assms(1) obtain st1 where
    c: "considerTerminal tb g nx s w d n st = Some st1" and
    st': "st' = fold (enqueue (snd n)) (actions tb g (fst n)) st1"
    by (auto simp: bfsStep_def split: option.splits)
  have "\<forall>q. bestTarget st1 = Some q \<longrightarrow>
             collidesWithGrid tb g q 0 1 0 \<and> totalScore tb g nx s w d q = Some (bestScore st1)"
  proof (cases "collidesWithGrid tb g (fst n) 0 1 0")
    case True
    from considerTerminal_scored [OF c True] obtain tot where
      t: "totalScore tb g nx s w d (fst n) = Some tot" and
      s1: "st1 = (if jsLess tot (bestScore st)
                  then st\<lparr>bestScore := tot, bestPath := Some (snd n @ [hardD]),
                          bestTarget := Some (fst n)\<rparr>
                  else st)"
      by blast
    show ?thesis
    proof (cases "jsLess tot (bestScore st)")
      case True
      with s1 have "bestTarget st1 = Some (fst n)" "bestScore st1 = tot" by simp_all
      with t \<open>collidesWithGrid tb g (fst n) 0 1 0\<close> show ?thesis by simp
    next
      case False
      with s1 have "st1 = st" by simp
      with assms(2) show ?thesis by simp
    qed
  next
    case False
    with c have "st1 = st" by (simp add: considerTerminal_def)
    with assms(2) show ?thesis by simp
  qed
  then show ?thesis unfolding st' by (simp add: fold_enqueue_best)
qed

lemma bfs_best_score:
  assumes "bfs tb g nx s w d (initialSearch p) = Some fin" and "bestTarget fin = Some q"
  shows "collidesWithGrid tb g q 0 1 0 \<and> totalScore tb g nx s w d q = Some (bestScore fin)"
proof -
  define I where "I = (\<lambda>st :: search. \<forall>q. bestTarget st = Some q \<longrightarrow>
             collidesWithGrid tb g q 0 1 0 \<and> totalScore tb g nx s w d q = Some (bestScore st))"
  have "I fin \<and> queue fin = []"
  proof (rule bfs_invariant [OF assms(1), where I = I])
    show "I (initialSearch p)" by (simp add: I_def initialSearch_def)
  next
    fix n rest st st'
    assume i: "I st" and b: "bfsStep tb g nx s w d n (st\<lparr>queue := rest\<rparr>) = Some st'"
    have "\<forall>q. bestTarget (st\<lparr>queue := rest\<rparr>) = Some q \<longrightarrow>
             collidesWithGrid tb g q 0 1 0 \<and>
             totalScore tb g nx s w d q = Some (bestScore (st\<lparr>queue := rest\<rparr>))"
      using i by (simp add: I_def)
    from bfsStep_best_score [OF b this] show "I st'" by (simp add: I_def)
  qed
  with assms(2) show ?thesis by (simp add: I_def)
qed

lemma findBestMove_bfs:
  "findBestMove tb state strategy w =
     (case Block state of
        None \<Rightarrow> Some \<lparr>path = [], target = None\<rparr>
      | Some p \<Rightarrow>
          map_option
            (\<lambda>fin. \<lparr>path = (case bestPath fin of None \<Rightarrow> [hardD] | Some pth \<Rightarrow> pth),
                     target = bestTarget fin\<rparr>)
            (bfs tb (grid state) (Next state) (effectiveStrategy (grid state) strategy) w
               (iPieceDrought state) (initialSearch p)))"
  by (simp add: findBestMove_def Let_def split: option.splits)

text \<open>One iteration of the search loop.\<close>

lemma bfs_iteration:
  "bfs tb g nx s w d st =
     (case queue st of
        [] \<Rightarrow> Some st
      | n # rest \<Rightarrow>
          (case considerTerminal tb g nx s w d n (st\<lparr>queue := rest\<rparr>) of
             None \<Rightarrow> None
           | Some st1 \<Rightarrow>
               bfs tb g nx s w d (fold (enqueue (snd n)) (actions tb g (fst n)) st1)))"
  by (subst bfs.simps) (simp add: bfsStep_def split: list.splits option.splits)

text \<open>
  The survival evaluation reads six weights and not the drought count, so a search run
  with the strategy \<open>survival\<close> depends on the weights through these six and
  \<open>lookaheadScore\<close> only.
\<close>

lemma evaluateSurvival_cong:
  assumes "\<forall>k \<in> {''aggregateHeight'', ''completedLines'', ''holes'', ''bumpiness'',
                  ''holeReduction'', ''centerClog''}. w' k = w k"
  shows "evaluateSurvival g c w' hb = evaluateSurvival g c w hb"
proof -
  have e: "w' ''aggregateHeight'' = w ''aggregateHeight''"
    "w' ''completedLines'' = w ''completedLines''" "w' ''holes'' = w ''holes''"
    "w' ''bumpiness'' = w ''bumpiness''" "w' ''holeReduction'' = w ''holeReduction''"
    "w' ''centerClog'' = w ''centerClog''"
    using assms by simp_all
  show ?thesis unfolding evaluateSurvival_def e by (rule refl)
qed

lemma placementScore_survival_cong:
  assumes "\<forall>k \<in> {''aggregateHeight'', ''completedLines'', ''holes'', ''bumpiness'',
                  ''holeReduction'', ''centerClog''}. w' k = w k"
  shows "placementScore tb g p ''survival'' w' d' = placementScore tb g p ''survival'' w d"
  unfolding placementScore_explicit
  by (simp add: evaluateBoard_other evaluateSurvival_cong [OF assms])

lemma lookahead_survival_cong:
  assumes "\<forall>k \<in> {''aggregateHeight'', ''completedLines'', ''holes'', ''bumpiness'',
                  ''holeReduction'', ''centerClog''}. w' k = w k"
  shows "evaluateAllPossiblePlacements tb g nx ''survival'' w' d' =
         evaluateAllPossiblePlacements tb g nx ''survival'' w d"
proof -
  have p: "placementScore tb g p ''survival'' w' d' = placementScore tb g p ''survival'' w d"
    for p
    by (rule placementScore_survival_cong [OF assms])
  have c: "tryColumn tb g t rot ''survival'' w' d' = tryColumn tb g t rot ''survival'' w d"
    for t rot
    unfolding tryColumn_def p by (rule refl)
  have "tryRotation tb g t ''survival'' w' d' = tryRotation tb g t ''survival'' w d" for t
    unfolding tryRotation_def c by (rule refl)
  then show ?thesis unfolding evaluateAllPossiblePlacements_def by (simp only:)
qed

lemma totalScore_survival_cong:
  assumes "\<forall>k \<in> {''aggregateHeight'', ''completedLines'', ''holes'', ''bumpiness'',
                  ''holeReduction'', ''centerClog''}. w' k = w k"
      and "w' ''lookaheadScore'' = w ''lookaheadScore''"
  shows "totalScore tb g nx ''survival'' w' d' q = totalScore tb g nx ''survival'' w d q"
proof -
  have l: "lookaheadWeight w' = lookaheadWeight w"
    using assms(2) by (simp add: lookaheadWeight_def)
  have e: "evaluateBoard g1 c ''survival'' w' d' hb = evaluateBoard g1 c ''survival'' w d hb"
    for g1 c hb
    by (simp add: evaluateBoard_other evaluateSurvival_cong [OF assms(1)])
  show ?thesis
    unfolding totalScore_explicit l e lookahead_survival_cong [OF assms(1), of tb _ nx d' d]
    by (rule refl)
qed

lemma bfs_survival_cong:
  assumes "\<forall>k \<in> {''aggregateHeight'', ''completedLines'', ''holes'', ''bumpiness'',
                  ''holeReduction'', ''centerClog''}. w' k = w k"
      and "w' ''lookaheadScore'' = w ''lookaheadScore''"
  shows "bfs tb g nx ''survival'' w' d' st = bfs tb g nx ''survival'' w d st"
proof (rule bfs_step_cong)
  fix n st
  have t: "totalScore tb g nx ''survival'' w' d' q = totalScore tb g nx ''survival'' w d q" for q
    by (rule totalScore_survival_cong [OF assms])
  show "bfsStep tb g nx ''survival'' w' d' n st = bfsStep tb g nx ''survival'' w d n st"
    unfolding bfsStep_def considerTerminal_def t by (rule refl)
qed


section \<open>The strategy used by the search\<close>

lemma heights_example19:
  "getColumnHeights (wellExampleGrid 19) = [5, 5, 5, 5, 5, 5, 5, 5, 5, 19]"
  by code_simp

lemma heights_danger: "getColumnHeights dangerGrid = [0, 0, 0, 2, 0, 0, 2, 0, 0, 19]"
  by code_simp

lemma danger_run:
  "bfs sampleTables dangerGrid (Some 3) ''survival'' BASE_WELL_WEIGHTS 20
        (initialSearch \<lparr>ptype = 3, rotation = 0, px = 3, py = 22\<rparr>)
   = Some \<lparr>queue = [], visited = {(3, 22, 0)}, bestScore = Num (15987 / 100),
            bestPath = Some [hardD],
            bestTarget = Some \<lparr>ptype = 3, rotation = 0, px = 3, py = 22\<rparr>\<rparr>"
  by code_simp

text \<open>
  C2. When the strategy is a well strategy and some column of the input grid is higher
  than 18, the whole search runs with the strategy \<open>survival\<close>:
  \<^item> the strategy in effect is \<open>survival\<close>, the call returns what the call with strategy
    \<open>survival\<close> returns, and is the result of the search loop run with \<open>survival\<close>;
  \<^item> every evaluation under the strategy in effect is the survival evaluation;
  \<^item> every terminal candidate is compared by its score under \<open>survival\<close>, which is
    the survival evaluation of the board after the move plus the weighted lookahead
    under \<open>survival\<close>;
  \<^item> every lookahead placement is scored by the survival evaluation, and the result
    of the lookahead is \<open>Infinity\<close> or the survival evaluation of one of its placements;
  \<^item> the target that the call returns has the best score under \<open>survival\<close>;
  \<^item> the weights that only the well branch reads (\<open>wellClogs\<close>, \<open>lineClearBonus\<close>,
    \<open>droughtPenalty\<close>) and the drought count have no effect on the result.
\<close>

theorem danger_overrides_well_strategy:
  assumes "strategy = ''rightWell'' \<or> strategy = ''leftWell''"
      and "maxHeight (getColumnHeights (grid state)) > 18"
  shows "effectiveStrategy (grid state) strategy = ''survival''
       \<and> findBestMove tb state strategy w = findBestMove tb state ''survival'' w
       \<and> (\<forall>g c d hb. evaluateBoard g c (effectiveStrategy (grid state) strategy) w d hb =
                      Num (evaluateSurvival g c w hb))
       \<and> findBestMove tb state strategy w =
           (case Block state of
              None \<Rightarrow> Some \<lparr>path = [], target = None\<rparr>
            | Some p \<Rightarrow>
                map_option
                  (\<lambda>fin. \<lparr>path = (case bestPath fin of None \<Rightarrow> [hardD] | Some pth \<Rightarrow> pth),
                           target = bestTarget fin\<rparr>)
                  (bfs tb (grid state) (Next state) ''survival'' w (iPieceDrought state)
                     (initialSearch p)))
       \<and> (\<forall>n st st'.
             considerTerminal tb (grid state) (Next state)
               (effectiveStrategy (grid state) strategy) w (iPieceDrought state) n st = Some st' \<and>
             collidesWithGrid tb (grid state) (fst n) 0 1 0 \<longrightarrow>
             (\<exists>tot. totalScore tb (grid state) (Next state) ''survival'' w
                      (iPieceDrought state) (fst n) = Some tot \<and>
                    st' = (if jsLess tot (bestScore st)
                           then st\<lparr>bestScore := tot, bestPath := Some (snd n @ [hardD]),
                                   bestTarget := Some (fst n)\<rparr>
                           else st)))
       \<and> (\<forall>st. bfs tb (grid state) (Next state) (effectiveStrategy (grid state) strategy) w
                  (iPieceDrought state) st =
                (case queue st of
                   [] \<Rightarrow> Some st
                 | n # rest \<Rightarrow>
                     (case considerTerminal tb (grid state) (Next state) ''survival'' w
                             (iPieceDrought state) n (st\<lparr>queue := rest\<rparr>) of
                        None \<Rightarrow> None
                      | Some st1 \<Rightarrow>
                          bfs tb (grid state) (Next state) ''survival'' w (iPieceDrought state)
                            (fold (enqueue (snd n)) (actions tb (grid state) (fst n)) st1))))
       \<and> (\<forall>q. totalScore tb (grid state) (Next state)
                 (effectiveStrategy (grid state) strategy) w (iPieceDrought state) q =
               (case simulateLineClearing
                       (lockShape (grid state) (ptype q) (px q) (py q)
                          (blockCoords tb (ptype q) ! rotation q)) of
                  (g1, c) \<Rightarrow>
                    map_option
                      (\<lambda>next. jsAdd
                         (Num (evaluateSurvival g1 c w
                            (Some (getHoles (lockShape (grid state) (ptype q) (px q) (py q)
                                               (blockCoords tb (ptype q) ! rotation q))))))
                         (jsMul next (Num (lookaheadWeight w))))
                      (evaluateAllPossiblePlacements tb g1 (Next state) ''survival'' w
                         (iPieceDrought state))))
       \<and> (\<forall>g p. placementScore tb g p (effectiveStrategy (grid state) strategy) w
                   (iPieceDrought state) =
                 (case simulateLineClearing
                         (lockShape g (ptype p) (px p) (py p)
                            (blockCoords tb (ptype p) ! rotation p)) of
                    (g1, c) \<Rightarrow>
                      Num (evaluateSurvival g1 c w
                             (Some (getHoles (lockShape g (ptype p) (px p) (py p)
                                                (blockCoords tb (ptype p) ! rotation p)))))))
       \<and> (\<forall>g t r. evaluateAllPossiblePlacements tb g (Some t)
                     (effectiveStrategy (grid state) strategy) w (iPieceDrought state) = Some r \<longrightarrow>
              r = PosInf \<or>
              (\<exists>rot x y. rot < length (blockCoords tb t) \<and> - 2 \<le> x \<and> x < int COLS \<and>
                 dropLoop tb g \<lparr>ptype = t, rotation = rot, px = x, py = 0\<rparr> 0 = Some y \<and>
                 r = (case simulateLineClearing (lockShape g t x y (blockCoords tb t ! rot)) of
                        (g1, c) \<Rightarrow>
                          Num (evaluateSurvival g1 c w
                                 (Some (getHoles (lockShape g t x y (blockCoords tb t ! rot))))))))
       \<and> (\<forall>p fin q. Block state = Some p \<and>
              bfs tb (grid state) (Next state) ''survival'' w (iPieceDrought state)
                (initialSearch p) = Some fin \<and>
              bestTarget fin = Some q \<longrightarrow>
              map_option target (findBestMove tb state strategy w) = Some (Some q) \<and>
              totalScore tb (grid state) (Next state) ''survival'' w (iPieceDrought state) q =
                Some (bestScore fin))
       \<and> (\<forall>w' d'. (\<forall>k \<in> {''aggregateHeight'', ''completedLines'', ''holes'', ''bumpiness'',
                             ''holeReduction'', ''centerClog'', ''lookaheadScore''}.
                       w' k = w k) \<longrightarrow>
              findBestMove tb (state\<lparr>iPieceDrought := d'\<rparr>) strategy w' =
              findBestMove tb state strategy w)"
proof -
  have e: "effectiveStrategy (grid state) strategy = ''survival''"
    using assms by (auto simp: effectiveStrategy_def DANGER_HEIGHT_THRESHOLD_def)
  have s: "effectiveStrategy (grid state) ''survival'' = ''survival''"
    by (simp add: effectiveStrategy_def)
  have c2: "findBestMove tb state strategy w = findBestMove tb state ''survival'' w"
    unfolding findBestMove_def e s by (rule refl)
  have c3: "\<forall>g c d hb. evaluateBoard g c (effectiveStrategy (grid state) strategy) w d hb =
                      Num (evaluateSurvival g c w hb)"
    by (simp add: e evaluateBoard_other)
  have c4: "findBestMove tb state strategy w =
           (case Block state of
              None \<Rightarrow> Some \<lparr>path = [], target = None\<rparr>
            | Some p \<Rightarrow>
                map_option
                  (\<lambda>fin. \<lparr>path = (case bestPath fin of None \<Rightarrow> [hardD] | Some pth \<Rightarrow> pth),
                           target = bestTarget fin\<rparr>)
                  (bfs tb (grid state) (Next state) ''survival'' w (iPieceDrought state)
                     (initialSearch p)))"
    unfolding findBestMove_bfs e by (rule refl)
  have c5: "\<forall>n st st'.
             considerTerminal tb (grid state) (Next state)
               (effectiveStrategy (grid state) strategy) w (iPieceDrought state) n st = Some st' \<and>
             collidesWithGrid tb (grid state) (fst n) 0 1 0 \<longrightarrow>
             (\<exists>tot. totalScore tb (grid state) (Next state) ''survival'' w
                      (iPieceDrought state) (fst n) = Some tot \<and>
                    st' = (if jsLess tot (bestScore st)
                           then st\<lparr>bestScore := tot, bestPath := Some (snd n @ [hardD]),
                                   bestTarget := Some (fst n)\<rparr>
                           else st))"
    unfolding e using considerTerminal_scored by blast
  have c5b: "\<forall>st. bfs tb (grid state) (Next state) (effectiveStrategy (grid state) strategy) w
                  (iPieceDrought state) st =
                (case queue st of
                   [] \<Rightarrow> Some st
                 | n # rest \<Rightarrow>
                     (case considerTerminal tb (grid state) (Next state) ''survival'' w
                             (iPieceDrought state) n (st\<lparr>queue := rest\<rparr>) of
                        None \<Rightarrow> None
                      | Some st1 \<Rightarrow>
                          bfs tb (grid state) (Next state) ''survival'' w (iPieceDrought state)
                            (fold (enqueue (snd n)) (actions tb (grid state) (fst n)) st1)))"
    unfolding e by (intro allI) (rule bfs_iteration)
  have c6: "\<forall>q. totalScore tb (grid state) (Next state)
                 (effectiveStrategy (grid state) strategy) w (iPieceDrought state) q =
               (case simulateLineClearing
                       (lockShape (grid state) (ptype q) (px q) (py q)
                          (blockCoords tb (ptype q) ! rotation q)) of
                  (g1, c) \<Rightarrow>
                    map_option
                      (\<lambda>next. jsAdd
                         (Num (evaluateSurvival g1 c w
                            (Some (getHoles (lockShape (grid state) (ptype q) (px q) (py q)
                                               (blockCoords tb (ptype q) ! rotation q))))))
                         (jsMul next (Num (lookaheadWeight w))))
                      (evaluateAllPossiblePlacements tb g1 (Next state) ''survival'' w
                         (iPieceDrought state)))"
    unfolding e totalScore_explicit by (simp add: evaluateBoard_other)
  have c7: "\<forall>g p. placementScore tb g p (effectiveStrategy (grid state) strategy) w
                   (iPieceDrought state) =
                 (case simulateLineClearing
                         (lockShape g (ptype p) (px p) (py p)
                            (blockCoords tb (ptype p) ! rotation p)) of
                    (g1, c) \<Rightarrow>
                      Num (evaluateSurvival g1 c w
                             (Some (getHoles (lockShape g (ptype p) (px p) (py p)
                                                (blockCoords tb (ptype p) ! rotation p))))))"
    unfolding e placementScore_explicit by (simp add: evaluateBoard_other)
  have c8: "\<forall>g t r. evaluateAllPossiblePlacements tb g (Some t)
                     (effectiveStrategy (grid state) strategy) w (iPieceDrought state) = Some r \<longrightarrow>
              r = PosInf \<or>
              (\<exists>rot x y. rot < length (blockCoords tb t) \<and> - 2 \<le> x \<and> x < int COLS \<and>
                 dropLoop tb g \<lparr>ptype = t, rotation = rot, px = x, py = 0\<rparr> 0 = Some y \<and>
                 r = (case simulateLineClearing (lockShape g t x y (blockCoords tb t ! rot)) of
                        (g1, c) \<Rightarrow>
                          Num (evaluateSurvival g1 c w
                                 (Some (getHoles (lockShape g t x y (blockCoords tb t ! rot)))))))"
  proof (intro allI impI)
    fix g t r
    assume a: "evaluateAllPossiblePlacements tb g (Some t)
                 (effectiveStrategy (grid state) strategy) w (iPieceDrought state) = Some r"
    define Q where "Q = (\<lambda>r. r = PosInf \<or>
              (\<exists>rot x y. rot < length (blockCoords tb t) \<and> - 2 \<le> x \<and> x < int COLS \<and>
                 dropLoop tb g \<lparr>ptype = t, rotation = rot, px = x, py = 0\<rparr> 0 = Some y \<and>
                 r = (case simulateLineClearing (lockShape g t x y (blockCoords tb t ! rot)) of
                        (g1, c) \<Rightarrow>
                          Num (evaluateSurvival g1 c w
                                 (Some (getHoles (lockShape g t x y (blockCoords tb t ! rot))))))))"
    have "Q r"
    proof (rule evaluateAllPossiblePlacements_placement [OF a])
      show "Q PosInf" by (simp add: Q_def)
    next
      fix rot x y
      assume b: "rot < length (blockCoords tb t)" "- 2 \<le> x" "x < int COLS"
        "dropLoop tb g \<lparr>ptype = t, rotation = rot, px = x, py = 0\<rparr> 0 = Some y"
      have "placementScore tb g \<lparr>ptype = t, rotation = rot, px = x, py = y\<rparr>
              (effectiveStrategy (grid state) strategy) w (iPieceDrought state) =
            (case simulateLineClearing (lockShape g t x y (blockCoords tb t ! rot)) of
               (g1, c) \<Rightarrow>
                 Num (evaluateSurvival g1 c w
                        (Some (getHoles (lockShape g t x y (blockCoords tb t ! rot))))))"
        using c7 by simp
      with b show "Q (placementScore tb g \<lparr>ptype = t, rotation = rot, px = x, py = y\<rparr>
              (effectiveStrategy (grid state) strategy) w (iPieceDrought state))"
        unfolding Q_def by blast
    qed
    then show "r = PosInf \<or>
              (\<exists>rot x y. rot < length (blockCoords tb t) \<and> - 2 \<le> x \<and> x < int COLS \<and>
                 dropLoop tb g \<lparr>ptype = t, rotation = rot, px = x, py = 0\<rparr> 0 = Some y \<and>
                 r = (case simulateLineClearing (lockShape g t x y (blockCoords tb t ! rot)) of
                        (g1, c) \<Rightarrow>
                          Num (evaluateSurvival g1 c w
                                 (Some (getHoles (lockShape g t x y (blockCoords tb t ! rot)))))))"
      by (simp add: Q_def)
  qed
  have c9: "\<forall>p fin q. Block state = Some p \<and>
              bfs tb (grid state) (Next state) ''survival'' w (iPieceDrought state)
                (initialSearch p) = Some fin \<and>
              bestTarget fin = Some q \<longrightarrow>
              map_option target (findBestMove tb state strategy w) = Some (Some q) \<and>
              totalScore tb (grid state) (Next state) ''survival'' w (iPieceDrought state) q =
                Some (bestScore fin)"
  proof (intro allI impI)
    fix p fin q
    assume a: "Block state = Some p \<and>
              bfs tb (grid state) (Next state) ''survival'' w (iPieceDrought state)
                (initialSearch p) = Some fin \<and>
              bestTarget fin = Some q"
    then have "map_option target (findBestMove tb state strategy w) = Some (Some q)"
      unfolding c4 by simp
    moreover from a have "totalScore tb (grid state) (Next state) ''survival'' w
        (iPieceDrought state) q = Some (bestScore fin)"
      using bfs_best_score [of tb "grid state" "Next state" "''survival''" w
          "iPieceDrought state" p fin q] by simp
    ultimately show "map_option target (findBestMove tb state strategy w) = Some (Some q) \<and>
              totalScore tb (grid state) (Next state) ''survival'' w (iPieceDrought state) q =
                Some (bestScore fin)"
      by simp
  qed
  have c10: "\<forall>w' d'. (\<forall>k \<in> {''aggregateHeight'', ''completedLines'', ''holes'', ''bumpiness'',
                             ''holeReduction'', ''centerClog'', ''lookaheadScore''}.
                       w' k = w k) \<longrightarrow>
              findBestMove tb (state\<lparr>iPieceDrought := d'\<rparr>) strategy w' =
              findBestMove tb state strategy w"
  proof (intro allI impI)
    fix w' d'
    assume a: "\<forall>k \<in> {''aggregateHeight'', ''completedLines'', ''holes'', ''bumpiness'',
                             ''holeReduction'', ''centerClog'', ''lookaheadScore''}.
                       w' k = w k"
    then have k: "\<forall>k \<in> {''aggregateHeight'', ''completedLines'', ''holes'', ''bumpiness'',
                  ''holeReduction'', ''centerClog''}. w' k = w k"
      and l: "w' ''lookaheadScore'' = w ''lookaheadScore''"
      by simp_all
    have b: "bfs tb (grid state) (Next state) ''survival'' w' d' st =
             bfs tb (grid state) (Next state) ''survival'' w (iPieceDrought state) st" for st
      by (rule bfs_survival_cong [OF k l])
    have e': "effectiveStrategy (grid (state\<lparr>iPieceDrought := d'\<rparr>)) strategy = ''survival''"
      using e by simp
    have "findBestMove tb (state\<lparr>iPieceDrought := d'\<rparr>) strategy w' =
           (case Block state of
              None \<Rightarrow> Some \<lparr>path = [], target = None\<rparr>
            | Some p \<Rightarrow>
                map_option
                  (\<lambda>fin. \<lparr>path = (case bestPath fin of None \<Rightarrow> [hardD] | Some pth \<Rightarrow> pth),
                           target = bestTarget fin\<rparr>)
                  (bfs tb (grid state) (Next state) ''survival'' w (iPieceDrought state)
                     (initialSearch p)))"
      unfolding findBestMove_bfs e' by (cases "Block state") (simp_all add: b)
    then show "findBestMove tb (state\<lparr>iPieceDrought := d'\<rparr>) strategy w' =
              findBestMove tb state strategy w"
      unfolding c4 .
  qed
  show ?thesis
    by (intro conjI, rule e, rule c2, rule c3, rule c4, rule c5, rule c5b, rule c6, rule c7,
        rule c8, rule c9, rule c10)
qed

theorem danger_overrides_well_strategy_witness:
  "findBestMove sampleTables
     \<lparr>grid = dangerGrid, Block = Some \<lparr>ptype = 3, rotation = 0, px = 3, py = 22\<rparr>,
      Next = Some 3, iPieceDrought = 20\<rparr> ''rightWell'' BASE_WELL_WEIGHTS
     = Some \<lparr>path = [hardD], target = Some \<lparr>ptype = 3, rotation = 0, px = 3, py = 22\<rparr>\<rparr>
   \<and> totalScore sampleTables dangerGrid (Some 3) ''survival'' BASE_WELL_WEIGHTS 20
       \<lparr>ptype = 3, rotation = 0, px = 3, py = 22\<rparr> = Some (Num (15987 / 100))
   \<and> findBestMove sampleTables
       \<lparr>grid = dangerGrid, Block = Some \<lparr>ptype = 3, rotation = 0, px = 3, py = 22\<rparr>,
        Next = Some 3, iPieceDrought = 0\<rparr> ''rightWell''
       (BASE_WELL_WEIGHTS(''wellClogs'' \<mapsto> 0, ''droughtPenalty'' \<mapsto> 1))
     = Some \<lparr>path = [hardD], target = Some \<lparr>ptype = 3, rotation = 0, px = 3, py = 22\<rparr>\<rparr>"
proof -
  let ?p = "\<lparr>ptype = 3, rotation = 0, px = 3, py = 22\<rparr>"
  let ?st = "\<lparr>grid = dangerGrid, Block = Some ?p, Next = Some 3, iPieceDrought = 20\<rparr>"
  let ?fin = "\<lparr>queue = [], visited = {(3, 22, 0)}, bestScore = Num (15987 / 100),
               bestPath = Some [hardD], bestTarget = Some ?p\<rparr>"
  have h: "maxHeight (getColumnHeights (grid ?st)) > 18"
    by (simp add: heights_danger maxHeight_def)
  have a: "''rightWell'' = ''rightWell'' \<or> ''rightWell'' = ''leftWell''" by simp
  note T = danger_overrides_well_strategy
             [where strategy = "''rightWell''" and state = ?st and tb = sampleTables
                and w = BASE_WELL_WEIGHTS, OF a h]
  note c4 = T [THEN conjunct2, THEN conjunct2, THEN conjunct2, THEN conjunct1]
  note c9 = T [THEN conjunct2, THEN conjunct2, THEN conjunct2, THEN conjunct2, THEN conjunct2,
                THEN conjunct2, THEN conjunct2, THEN conjunct2, THEN conjunct2, THEN conjunct1]
  note c10 = T [THEN conjunct2, THEN conjunct2, THEN conjunct2, THEN conjunct2, THEN conjunct2,
                 THEN conjunct2, THEN conjunct2, THEN conjunct2, THEN conjunct2, THEN conjunct2]
  have r: "findBestMove sampleTables ?st ''rightWell'' BASE_WELL_WEIGHTS =
           Some \<lparr>path = [hardD], target = Some ?p\<rparr>"
    using c4 danger_run by simp
  have t: "totalScore sampleTables dangerGrid (Some 3) ''survival'' BASE_WELL_WEIGHTS 20 ?p =
           Some (Num (15987 / 100))"
    using c9 [rule_format, of ?p ?fin ?p] danger_run by simp
  have i: "findBestMove sampleTables
        \<lparr>grid = dangerGrid, Block = Some ?p, Next = Some 3, iPieceDrought = 0\<rparr>
        ''rightWell'' (BASE_WELL_WEIGHTS(''wellClogs'' \<mapsto> 0, ''droughtPenalty'' \<mapsto> 1)) =
      Some \<lparr>path = [hardD], target = Some ?p\<rparr>"
  proof -
    have k: "\<forall>k \<in> {''aggregateHeight'', ''completedLines'', ''holes'', ''bumpiness'',
                    ''holeReduction'', ''centerClog'', ''lookaheadScore''}.
               (BASE_WELL_WEIGHTS(''wellClogs'' \<mapsto> 0, ''droughtPenalty'' \<mapsto> 1)) k =
               BASE_WELL_WEIGHTS k"
      by simp
    from c10 [THEN spec
                [where x = "BASE_WELL_WEIGHTS(''wellClogs'' \<mapsto> 0, ''droughtPenalty'' \<mapsto> 1)"],
              THEN spec [where x = 0], THEN mp, OF k] r
    show ?thesis by simp
  qed
  from r t i show ?thesis by simp
qed

section \<open>The lookahead weight\<close>

lemma evaluateBoard_lookahead_indep:
  "evaluateBoard g c s (w(''lookaheadScore'' \<mapsto> v)) d hb = evaluateBoard g c s w d hb"
  by (simp add: evaluateBoard_def evaluateWell_def evaluateSurvival_def droughtPenalty_def
      wellBumpinessPenalty_def Let_def cong: if_cong option.case_cong)

lemma placementScore_lookahead_indep:
  "placementScore tb g p s (w(''lookaheadScore'' \<mapsto> v)) d = placementScore tb g p s w d"
  unfolding placementScore_def evaluateBoard_lookahead_indep by (rule refl)

lemma tryColumn_lookahead_indep:
  "tryColumn tb g t rot s (w(''lookaheadScore'' \<mapsto> v)) d = tryColumn tb g t rot s w d"
  unfolding tryColumn_def placementScore_lookahead_indep by (rule refl)

lemma evaluateAllPossiblePlacements_lookahead_indep:
  "evaluateAllPossiblePlacements tb g nx s (w(''lookaheadScore'' \<mapsto> v)) d =
   evaluateAllPossiblePlacements tb g nx s w d"
proof -
  have "tryRotation tb g t s (w(''lookaheadScore'' \<mapsto> v)) d = tryRotation tb g t s w d" for t
    unfolding tryRotation_def tryColumn_lookahead_indep by (rule refl)
  then show ?thesis unfolding evaluateAllPossiblePlacements_def by (simp only:)
qed

lemma totalScore_lookahead_zero:
  assumes "w ''lookaheadScore'' = Some 0"
  shows "totalScore tb g nx s (w(''lookaheadScore'' \<mapsto> 0.8)) d p = totalScore tb g nx s w d p"
proof -
  have "lookaheadWeight (w(''lookaheadScore'' \<mapsto> 0.8)) = lookaheadWeight w"
    using assms by (simp add: lookaheadWeight_def)
  then show ?thesis
    unfolding totalScore_def evaluateBoard_lookahead_indep
      evaluateAllPossiblePlacements_lookahead_indep
    by (simp only:)
qed

lemma pocket_lookahead_run:
  "bfs sampleTables pocketGrid (Some 3) ''survival''
        (BASE_SURVIVAL_WEIGHTS(''lookaheadScore'' \<mapsto> 0)) 0
        (initialSearch \<lparr>ptype = 3, rotation = 0, px = 3, py = 22\<rparr>)
   = Some \<lparr>queue = [], visited = {(3, 22, 0)}, bestScore = Num (1284 / 125),
            bestPath = Some [hardD],
            bestTarget = Some \<lparr>ptype = 3, rotation = 0, px = 3, py = 22\<rparr>\<rparr>"
  by code_simp

lemma pocket_lookahead_parts:
  "(case simulateLineClearing (lockShape pocketGrid 3 3 22 (blockCoords sampleTables 3 ! 0)) of
      (g1, c) \<Rightarrow>
        (evaluateBoard g1 c ''survival'' (BASE_SURVIVAL_WEIGHTS(''lookaheadScore'' \<mapsto> 0)) 0
           (Some (getHoles (lockShape pocketGrid 3 3 22 (blockCoords sampleTables 3 ! 0)))),
         evaluateAllPossiblePlacements sampleTables g1 (Some 3) ''survival''
           (BASE_SURVIVAL_WEIGHTS(''lookaheadScore'' \<mapsto> 0)) 0))
   = (Num (24 / 5), Some (Num (171 / 25)))"
  by code_simp

text \<open>
  C10. When the weight vector has the key \<open>lookaheadScore\<close> with value 0, the lookahead
  weight is 0.8: the score of every terminal candidate is the evaluation of the board
  after the move plus 0.8 times the result of the lookahead, the target that the call
  returns has the best such score, and the call returns what it returns when the key
  has the value 0.8.
\<close>

theorem lookahead_zero_is_default:
  assumes "w ''lookaheadScore'' = Some 0"
  shows "lookaheadWeight w = 0.8
       \<and> findBestMove tb state strategy w =
           findBestMove tb state strategy (w(''lookaheadScore'' \<mapsto> 0.8))
       \<and> (\<forall>g nx s d q.
             totalScore tb g nx s w d q =
               (case simulateLineClearing
                       (lockShape g (ptype q) (px q) (py q)
                          (blockCoords tb (ptype q) ! rotation q)) of
                  (g1, c) \<Rightarrow>
                    map_option
                      (\<lambda>next. jsAdd
                         (evaluateBoard g1 c s w d
                            (Some (getHoles (lockShape g (ptype q) (px q) (py q)
                                               (blockCoords tb (ptype q) ! rotation q)))))
                         (jsMul next (Num 0.8)))
                      (evaluateAllPossiblePlacements tb g1 nx s w d)))
       \<and> (\<forall>p fin q. Block state = Some p \<and>
              bfs tb (grid state) (Next state) (effectiveStrategy (grid state) strategy) w
                (iPieceDrought state) (initialSearch p) = Some fin \<and>
              bestTarget fin = Some q \<longrightarrow>
              map_option target (findBestMove tb state strategy w) = Some (Some q) \<and>
              totalScore tb (grid state) (Next state) (effectiveStrategy (grid state) strategy) w
                (iPieceDrought state) q = Some (bestScore fin))
       \<and> (\<forall>g nx s d n st st'.
             considerTerminal tb g nx s w d n st = Some st' \<and>
             collidesWithGrid tb g (fst n) 0 1 0 \<longrightarrow>
             (\<exists>tot. totalScore tb g nx s w d (fst n) = Some tot \<and>
                    st' = (if jsLess tot (bestScore st)
                           then st\<lparr>bestScore := tot, bestPath := Some (snd n @ [hardD]),
                                   bestTarget := Some (fst n)\<rparr>
                           else st)))
       \<and> (\<forall>g nx s d st.
             bfs tb g nx s w d st =
               (case queue st of
                  [] \<Rightarrow> Some st
                | n # rest \<Rightarrow>
                    (case considerTerminal tb g nx s w d n (st\<lparr>queue := rest\<rparr>) of
                       None \<Rightarrow> None
                     | Some st1 \<Rightarrow>
                         bfs tb g nx s w d (fold (enqueue (snd n)) (actions tb g (fst n)) st1))))
       \<and> findBestMove tb state strategy w =
           (case Block state of
              None \<Rightarrow> Some \<lparr>path = [], target = None\<rparr>
            | Some p \<Rightarrow>
                map_option
                  (\<lambda>fin. \<lparr>path = (case bestPath fin of None \<Rightarrow> [hardD] | Some pth \<Rightarrow> pth),
                           target = bestTarget fin\<rparr>)
                  (bfs tb (grid state) (Next state) (effectiveStrategy (grid state) strategy) w
                     (iPieceDrought state) (initialSearch p)))"
proof -
  have ts: "totalScore tb g nx s (w(''lookaheadScore'' \<mapsto> 0.8)) d p =
            totalScore tb g nx s w d p" for g nx s d p
    using assms by (rule totalScore_lookahead_zero)
  have "bfsStep tb g nx s (w(''lookaheadScore'' \<mapsto> 0.8)) d n st = bfsStep tb g nx s w d n st"
    for g nx s d n st
    unfolding bfsStep_def considerTerminal_def ts by (rule refl)
  then have b: "bfs tb g nx s (w(''lookaheadScore'' \<mapsto> 0.8)) d st = bfs tb g nx s w d st"
    for g nx s d st
    by (rule bfs_step_cong)
  have "findBestMove tb state strategy (w(''lookaheadScore'' \<mapsto> 0.8)) =
        findBestMove tb state strategy w"
    unfolding findBestMove_def b by (rule refl)
  then have c2: "findBestMove tb state strategy w =
           findBestMove tb state strategy (w(''lookaheadScore'' \<mapsto> 0.8))"
    by simp
  have c1: "lookaheadWeight w = 0.8"
    using assms by (simp add: lookaheadWeight_def)
  have c3: "\<forall>g nx s d q.
             totalScore tb g nx s w d q =
               (case simulateLineClearing
                       (lockShape g (ptype q) (px q) (py q)
                          (blockCoords tb (ptype q) ! rotation q)) of
                  (g1, c) \<Rightarrow>
                    map_option
                      (\<lambda>next. jsAdd
                         (evaluateBoard g1 c s w d
                            (Some (getHoles (lockShape g (ptype q) (px q) (py q)
                                               (blockCoords tb (ptype q) ! rotation q)))))
                         (jsMul next (Num 0.8)))
                      (evaluateAllPossiblePlacements tb g1 nx s w d))"
    unfolding totalScore_explicit c1 by simp
  have c4: "\<forall>p fin q. Block state = Some p \<and>
              bfs tb (grid state) (Next state) (effectiveStrategy (grid state) strategy) w
                (iPieceDrought state) (initialSearch p) = Some fin \<and>
              bestTarget fin = Some q \<longrightarrow>
              map_option target (findBestMove tb state strategy w) = Some (Some q) \<and>
              totalScore tb (grid state) (Next state) (effectiveStrategy (grid state) strategy) w
                (iPieceDrought state) q = Some (bestScore fin)"
  proof (intro allI impI)
    fix p fin q
    assume a: "Block state = Some p \<and>
              bfs tb (grid state) (Next state) (effectiveStrategy (grid state) strategy) w
                (iPieceDrought state) (initialSearch p) = Some fin \<and>
              bestTarget fin = Some q"
    then have "map_option target (findBestMove tb state strategy w) = Some (Some q)"
      unfolding findBestMove_bfs by simp
    moreover from a have "totalScore tb (grid state) (Next state)
        (effectiveStrategy (grid state) strategy) w (iPieceDrought state) q =
        Some (bestScore fin)"
      using bfs_best_score [of tb "grid state" "Next state"
          "effectiveStrategy (grid state) strategy" w "iPieceDrought state" p fin q] by simp
    ultimately show "map_option target (findBestMove tb state strategy w) = Some (Some q) \<and>
              totalScore tb (grid state) (Next state) (effectiveStrategy (grid state) strategy) w
                (iPieceDrought state) q = Some (bestScore fin)"
      by simp
  qed
  have c5: "\<forall>g nx s d n st st'.
             considerTerminal tb g nx s w d n st = Some st' \<and>
             collidesWithGrid tb g (fst n) 0 1 0 \<longrightarrow>
             (\<exists>tot. totalScore tb g nx s w d (fst n) = Some tot \<and>
                    st' = (if jsLess tot (bestScore st)
                           then st\<lparr>bestScore := tot, bestPath := Some (snd n @ [hardD]),
                                   bestTarget := Some (fst n)\<rparr>
                           else st))"
    using considerTerminal_scored by blast
  have c6: "\<forall>g nx s d st.
             bfs tb g nx s w d st =
               (case queue st of
                  [] \<Rightarrow> Some st
                | n # rest \<Rightarrow>
                    (case considerTerminal tb g nx s w d n (st\<lparr>queue := rest\<rparr>) of
                       None \<Rightarrow> None
                     | Some st1 \<Rightarrow>
                         bfs tb g nx s w d (fold (enqueue (snd n)) (actions tb g (fst n)) st1)))"
    by (intro allI) (rule bfs_iteration)
  have c7: "findBestMove tb state strategy w =
           (case Block state of
              None \<Rightarrow> Some \<lparr>path = [], target = None\<rparr>
            | Some p \<Rightarrow>
                map_option
                  (\<lambda>fin. \<lparr>path = (case bestPath fin of None \<Rightarrow> [hardD] | Some pth \<Rightarrow> pth),
                           target = bestTarget fin\<rparr>)
                  (bfs tb (grid state) (Next state) (effectiveStrategy (grid state) strategy) w
                     (iPieceDrought state) (initialSearch p)))"
    by (rule findBestMove_bfs)
  show ?thesis
    by (intro conjI, rule c1, rule c2, rule c3, rule c4, rule c5, rule c6, rule c7)
qed

theorem lookahead_zero_is_default_witness:
  "lookaheadWeight (BASE_SURVIVAL_WEIGHTS(''lookaheadScore'' \<mapsto> 0)) = 0.8
   \<and> findBestMove sampleTables
       \<lparr>grid = pocketGrid, Block = Some \<lparr>ptype = 3, rotation = 0, px = 3, py = 22\<rparr>,
        Next = Some 3, iPieceDrought = 0\<rparr> ''survival''
       (BASE_SURVIVAL_WEIGHTS(''lookaheadScore'' \<mapsto> 0))
     = findBestMove sampleTables
       \<lparr>grid = pocketGrid, Block = Some \<lparr>ptype = 3, rotation = 0, px = 3, py = 22\<rparr>,
        Next = Some 3, iPieceDrought = 0\<rparr> ''survival''
       (BASE_SURVIVAL_WEIGHTS(''lookaheadScore'' \<mapsto> 0.8))
   \<and> map_option target
       (findBestMove sampleTables
          \<lparr>grid = pocketGrid, Block = Some \<lparr>ptype = 3, rotation = 0, px = 3, py = 22\<rparr>,
           Next = Some 3, iPieceDrought = 0\<rparr> ''survival''
          (BASE_SURVIVAL_WEIGHTS(''lookaheadScore'' \<mapsto> 0)))
     = Some (Some \<lparr>ptype = 3, rotation = 0, px = 3, py = 22\<rparr>)
   \<and> totalScore sampleTables pocketGrid (Some 3) ''survival''
       (BASE_SURVIVAL_WEIGHTS(''lookaheadScore'' \<mapsto> 0)) 0
       \<lparr>ptype = 3, rotation = 0, px = 3, py = 22\<rparr>
     = Some (jsAdd (Num (24 / 5)) (jsMul (Num (171 / 25)) (Num 0.8)))
   \<and> jsAdd (Num (24 / 5)) (jsMul (Num (171 / 25)) (Num 0.8)) = Num (1284 / 125)"
proof -
  let ?p = "\<lparr>ptype = 3, rotation = 0, px = 3, py = 22\<rparr>"
  let ?st = "\<lparr>grid = pocketGrid, Block = Some ?p, Next = Some 3, iPieceDrought = 0\<rparr>"
  let ?w = "BASE_SURVIVAL_WEIGHTS(''lookaheadScore'' \<mapsto> 0)"
  let ?fin = "\<lparr>queue = [], visited = {(3, 22, 0)}, bestScore = Num (1284 / 125),
               bestPath = Some [hardD], bestTarget = Some ?p\<rparr>"
  have es: "effectiveStrategy pocketGrid ''survival'' = ''survival''"
    by (simp add: effectiveStrategy_def)
  have k: "?w ''lookaheadScore'' = Some 0" by simp
  note T = lookahead_zero_is_default
             [where w = ?w and tb = sampleTables and state = ?st and strategy = "''survival''",
              OF k]
  from T have c1: "lookaheadWeight ?w = 0.8" by (rule conjunct1)
  from T have c2: "findBestMove sampleTables ?st ''survival'' ?w =
      findBestMove sampleTables ?st ''survival'' (?w(''lookaheadScore'' \<mapsto> 0.8))"
    by (rule conjunct2 [THEN conjunct1])
  from T have c3: "\<forall>g nx s d q.
             totalScore sampleTables g nx s ?w d q =
               (case simulateLineClearing
                       (lockShape g (ptype q) (px q) (py q)
                          (blockCoords sampleTables (ptype q) ! rotation q)) of
                  (g1, c) \<Rightarrow>
                    map_option
                      (\<lambda>next. jsAdd
                         (evaluateBoard g1 c s ?w d
                            (Some (getHoles (lockShape g (ptype q) (px q) (py q)
                                       (blockCoords sampleTables (ptype q) ! rotation q)))))
                         (jsMul next (Num 0.8)))
                      (evaluateAllPossiblePlacements sampleTables g1 nx s ?w d))"
    by (rule conjunct2 [THEN conjunct2, THEN conjunct1])
  from T have c4: "\<forall>p fin q. Block ?st = Some p \<and>
              bfs sampleTables (grid ?st) (Next ?st) (effectiveStrategy (grid ?st) ''survival'') ?w
                (iPieceDrought ?st) (initialSearch p) = Some fin \<and>
              bestTarget fin = Some q \<longrightarrow>
              map_option target (findBestMove sampleTables ?st ''survival'' ?w) = Some (Some q) \<and>
              totalScore sampleTables (grid ?st) (Next ?st)
                (effectiveStrategy (grid ?st) ''survival'') ?w
                (iPieceDrought ?st) q = Some (bestScore fin)"
    by (rule conjunct2 [THEN conjunct2, THEN conjunct2, THEN conjunct1])
  have tg: "map_option target (findBestMove sampleTables ?st ''survival'' ?w) = Some (Some ?p)"
    using c4 [rule_format, of ?p ?fin ?p] pocket_lookahead_run by (simp add: es)
  obtain g1 c where sl: "simulateLineClearing
      (lockShape pocketGrid 3 3 22 (blockCoords sampleTables 3 ! 0)) = (g1, c)"
    by (cases "simulateLineClearing
      (lockShape pocketGrid 3 3 22 (blockCoords sampleTables 3 ! 0))")
  from pocket_lookahead_parts have
    cur: "evaluateBoard g1 c ''survival'' ?w 0
           (Some (getHoles (lockShape pocketGrid 3 3 22 (blockCoords sampleTables 3 ! 0))))
          = Num (24 / 5)" and
    nxt: "evaluateAllPossiblePlacements sampleTables g1 (Some 3) ''survival'' ?w 0
          = Some (Num (171 / 25))"
    unfolding sl by simp_all
  have ts: "totalScore sampleTables pocketGrid (Some 3) ''survival'' ?w 0 ?p =
            Some (jsAdd (Num (24 / 5)) (jsMul (Num (171 / 25)) (Num 0.8)))"
    using c3 [rule_format, of pocketGrid "Some 3" "''survival''" 0 ?p]
    by (simp add: sl cur nxt)
  have ar: "jsAdd (Num (24 / 5)) (jsMul (Num (171 / 25)) (Num 0.8)) = Num (1284 / 125)"
    by simp
  from c1 c2 tg ts ar show ?thesis by simp
qed

section \<open>The fallbacks of the search\<close>

lemma bfsStep_best_inv:
  assumes "bfsStep tb g nx s w d n st = Some st'"
      and "bestPath st = None \<longrightarrow> bestTarget st = None"
  shows "bestPath st' = None \<longrightarrow> bestTarget st' = None"
  using assms
  by (auto simp: bfsStep_def considerTerminal_def fold_enqueue_best
      split: option.splits if_splits)

lemma bfs_best_inv:
  assumes "bfs tb g nx s w d (initialSearch p) = Some fin"
  shows "bestPath fin = None \<longrightarrow> bestTarget fin = None"
proof -
  have "(bestPath fin = None \<longrightarrow> bestTarget fin = None) \<and> queue fin = []"
  proof (rule bfs_invariant [OF assms])
    show "bestPath (initialSearch p) = None \<longrightarrow> bestTarget (initialSearch p) = None"
      by (simp add: initialSearch_def)
  next
    fix n rest st st'
    assume "bestPath st = None \<longrightarrow> bestTarget st = None"
      and "bfsStep tb g nx s w d n (st\<lparr>queue := rest\<rparr>) = Some st'"
    then show "bestPath st' = None \<longrightarrow> bestTarget st' = None"
      using bfsStep_best_inv [of tb g nx s w d n "st\<lparr>queue := rest\<rparr>" st'] by simp
  qed
  then show ?thesis by simp
qed

lemma pocket_run:
  "bfs sampleTables pocketGrid None ''rightWell'' BASE_SURVIVAL_WEIGHTS 0
        (initialSearch \<lparr>ptype = 3, rotation = 0, px = 3, py = 22\<rparr>)
   = Some \<lparr>queue = [], visited = {(3, 22, 0)}, bestScore = PosInf, bestPath = None,
            bestTarget = None\<rparr>"
  by code_simp

text \<open>
  C5. With no active piece, \<open>findBestMove\<close> returns the empty path and no target. With
  an active piece, when the search loop returns and has recorded no candidate, it
  returns the path of the single action \<open>hardD\<close> and no target.
\<close>

theorem findBestMove_fallbacks:
  "(Block state = None \<longrightarrow>
      findBestMove tb state strategy w = Some \<lparr>path = [], target = None\<rparr>)
   \<and> (\<forall>p fin. Block state = Some p \<and>
         bfs tb (grid state) (Next state) (effectiveStrategy (grid state) strategy) w
           (iPieceDrought state) (initialSearch p) = Some fin \<and>
         bestPath fin = None \<longrightarrow>
         findBestMove tb state strategy w = Some \<lparr>path = [hardD], target = None\<rparr>)"
proof (intro conjI allI impI)
  assume "Block state = None"
  then show "findBestMove tb state strategy w = Some \<lparr>path = [], target = None\<rparr>"
    by (simp add: findBestMove_def)
next
  fix p fin
  assume a: "Block state = Some p \<and>
         bfs tb (grid state) (Next state) (effectiveStrategy (grid state) strategy) w
           (iPieceDrought state) (initialSearch p) = Some fin \<and>
         bestPath fin = None"
  then have "bestTarget fin = None" using bfs_best_inv by blast
  with a show "findBestMove tb state strategy w = Some \<lparr>path = [hardD], target = None\<rparr>"
    by (simp add: findBestMove_def)
qed

theorem findBestMove_fallbacks_witness:
  "findBestMove sampleTables
     \<lparr>grid = createEmptyGrid, Block = None, Next = Some 0, iPieceDrought = 0\<rparr>
     ''survival'' BASE_SURVIVAL_WEIGHTS = Some \<lparr>path = [], target = None\<rparr>
   \<and> findBestMove sampleTables
       \<lparr>grid = pocketGrid, Block = Some \<lparr>ptype = 3, rotation = 0, px = 3, py = 22\<rparr>,
        Next = None, iPieceDrought = 0\<rparr>
       ''rightWell'' BASE_SURVIVAL_WEIGHTS = Some \<lparr>path = [hardD], target = None\<rparr>"
proof -
  let ?st = "\<lparr>grid = pocketGrid, Block = Some \<lparr>ptype = 3, rotation = 0, px = 3, py = 22\<rparr>,
              Next = None, iPieceDrought = 0\<rparr>"
  have h: "getColumnHeights pocketGrid = [0, 0, 0, 2, 0, 0, 2, 0, 0, 0]"
    by code_simp
  have e: "effectiveStrategy pocketGrid ''rightWell'' = ''rightWell''"
    by (simp add: effectiveStrategy_def h maxHeight_def DANGER_HEIGHT_THRESHOLD_def)
  show ?thesis
    using findBestMove_fallbacks [of "\<lparr>grid = createEmptyGrid, Block = None, Next = Some 0,
             iPieceDrought = 0\<rparr>" sampleTables "''survival''" BASE_SURVIVAL_WEIGHTS]
      findBestMove_fallbacks [of ?st sampleTables "''rightWell''" BASE_SURVIVAL_WEIGHTS]
      pocket_run
    by (simp add: e)
qed

section \<open>Termination of the search\<close>

lemma foldr_max_ge: "x \<in> set xs \<Longrightarrow> (x::int) \<le> foldr max xs 0"
  by (induction xs) auto

lemma foldr_max_nonneg: "(0::int) \<le> foldr max xs 0"
  by (induction xs) auto

lemma cellBound_ge:
  assumes "r < 4" "c \<in> set (blockCoords tb t ! r)"
  shows "\<bar>fst c\<bar> \<le> cellBound tb t \<and> \<bar>snd c\<bar> \<le> cellBound tb t"
proof -
  have "c \<in> set (concat (map (\<lambda>r. blockCoords tb t ! r) [0..<4]))"
    using assms by auto
  then have "max \<bar>fst c\<bar> \<bar>snd c\<bar> \<in> set (map (\<lambda>c. max \<bar>fst c\<bar> \<bar>snd c\<bar>)
                  (concat (map (\<lambda>r. blockCoords tb t ! r) [0..<4])))"
    unfolding set_map by (rule imageI)
  then have "max \<bar>fst c\<bar> \<bar>snd c\<bar> \<le> cellBound tb t"
    unfolding cellBound_def by (rule foldr_max_ge)
  then show ?thesis by simp
qed

lemma kickBound_ge:
  assumes "r < 4" "direction = ''R'' \<or> direction = ''L''"
      and "c \<in> set (kickTests tb t r direction)"
  shows "\<bar>snd c\<bar> \<le> kickBound tb t"
proof -
  have "c \<in> set (concat (map (\<lambda>r. kickTests tb t r ''R'' @ kickTests tb t r ''L'') [0..<4]))"
    using assms by auto
  then have "\<bar>snd c\<bar> \<in> set (map (\<lambda>c. \<bar>snd c\<bar>)
                  (concat (map (\<lambda>r. kickTests tb t r ''R'' @ kickTests tb t r ''L'') [0..<4])))"
    unfolding set_map by (rule imageI)
  then show ?thesis
    unfolding kickBound_def by (rule foldr_max_ge)
qed

lemma cellsCollide_free_bounds:
  assumes "\<not> cellsCollide g x (Some y) cs" "cs \<noteq> []"
      and "\<forall>c \<in> set cs. \<bar>fst c\<bar> \<le> B \<and> \<bar>snd c\<bar> \<le> B"
  shows "- B \<le> x \<and> x \<le> 9 + B \<and> y \<le> 23 + B \<and> \<not> wallHit cs x"
proof -
  from assms(2) obtain c where c: "c \<in> set cs" by (cases cs) auto
  from assms(1) have all: "\<forall>c \<in> set cs. 0 \<le> x + fst c \<and> x + fst c < 10 \<and> y + snd c < 24"
    unfolding cellsCollide_iff by (auto simp: COLS_def GRID_HEIGHT_def)
  from all c assms(3) have "- B \<le> x \<and> x \<le> 9 + B \<and> y \<le> 23 + B"
    by (auto simp: abs_le_iff dest!: bspec [where x = c])
  moreover from all have "\<not> wallHit cs x"
    by (auto simp: wallHit_def list_ex_iff COLS_def)
  ultimately show ?thesis by simp
qed

lemma cellsCollide_altitude:
  assumes "\<forall>c \<in> set cs. y + snd c < 0"
  shows "cellsCollide g x (Some y) cs = wallHit cs x"
  using assms unfolding cellsCollide_iff wallHit_def list_ex_iff
  by (auto simp: GRID_HEIGHT_def)

lemma dropLoop_terminates_aux:
  assumes "c \<in> set (blockCoords tb (ptype p) ! (rotation p mod 4))"
  shows "nat (23 - y - snd c) = k \<Longrightarrow> \<exists>y'. dropLoop tb g p y = Some y'"
proof (induction k arbitrary: y)
  case 0
  then have "py (p\<lparr>py := y + 1\<rparr>) + 0 + snd c \<ge> int GRID_HEIGHT"
    by (simp add: GRID_HEIGHT_def)
  with assms have "collidesWithGrid tb g (p\<lparr>py := y + 1\<rparr>) 0 0 0"
    unfolding collidesWithGrid_def cellsCollide_iff by auto
  then show ?case by (subst dropLoop.simps) simp
next
  case (Suc k)
  then have "nat (23 - (y + 1) - snd c) = k" by simp
  from Suc.IH [OF this] obtain y' where "dropLoop tb g p (y + 1) = Some y'" by blast
  then show ?case by (subst dropLoop.simps) simp
qed

lemma dropLoop_terminates:
  assumes "blockCoords tb (ptype p) ! (rotation p mod 4) \<noteq> []"
  shows "\<exists>y'. dropLoop tb g p y = Some y'"
proof -
  from assms obtain c where "c \<in> set (blockCoords tb (ptype p) ! (rotation p mod 4))"
    by (cases "blockCoords tb (ptype p) ! (rotation p mod 4)") auto
  then show ?thesis using dropLoop_terminates_aux by blast
qed

lemma foldOpt_total:
  assumes "\<And>a s. \<exists>s'. f a s = Some s'"
  shows "\<exists>s'. foldOpt f as s = Some s'"
proof (induction as arbitrary: s)
  case Nil
  show ?case by simp
next
  case (Cons a as)
  from assms obtain s1 where "f a s = Some s1" by blast
  with Cons show ?case by simp
qed

lemma shapesNonempty_mod:
  "shapesNonempty tb t \<Longrightarrow> blockCoords tb t ! (r mod 4) \<noteq> []"
  by (simp add: shapesNonempty_def)

lemma tryColumn_total:
  assumes "shapesNonempty tb t"
  shows "\<exists>s'. tryColumn tb g t rot strategy w d x s = Some s'"
proof -
  obtain y where "dropLoop tb g \<lparr>ptype = t, rotation = rot, px = x, py = 0\<rparr> 0 = Some y"
    using dropLoop_terminates [of tb "\<lparr>ptype = t, rotation = rot, px = x, py = 0\<rparr>" g 0]
      shapesNonempty_mod [OF assms, of rot] by auto
  then show ?thesis
    by (cases s) (simp add: tryColumn_def Let_def)
qed

lemma evaluateAllPossiblePlacements_total:
  assumes "case nx of None \<Rightarrow> True | Some t \<Rightarrow> shapesNonempty tb t"
  shows "\<exists>v. evaluateAllPossiblePlacements tb g nx strategy w d = Some v"
proof (cases nx)
  case None
  then show ?thesis by (simp add: evaluateAllPossiblePlacements_def)
next
  case (Some t)
  with assms have ne: "shapesNonempty tb t" by simp
  have "\<exists>b'. tryRotation tb g t strategy w d rot b = Some b'" for rot b
  proof -
    from foldOpt_total [of "tryColumn tb g t rot strategy w d", OF tryColumn_total [OF ne]]
    obtain s' where "foldOpt (tryColumn tb g t rot strategy w d) [- 2..int COLS - 1] (None, b) = Some s'"
      by blast
    then show ?thesis by (simp add: tryRotation_def)
  qed
  from foldOpt_total [of "tryRotation tb g t strategy w d", OF this]
  show ?thesis using Some by (simp add: evaluateAllPossiblePlacements_def)
qed

lemma considerTerminal_total:
  assumes "case nx of None \<Rightarrow> True | Some t \<Rightarrow> shapesNonempty tb t"
  shows "\<exists>st'. considerTerminal tb g nx strategy w d n st = Some st' \<and>
               queue st' = queue st \<and> visited st' = visited st"
proof -
  have "\<exists>v. totalScore tb g nx strategy w d (fst n) = Some v"
  proof -
    obtain v where "evaluateAllPossiblePlacements tb
         (fst (simulateLineClearing (lockShape g (ptype (fst n)) (px (fst n)) (py (fst n))
                  (blockCoords tb (ptype (fst n)) ! rotation (fst n)))))
         nx strategy w d = Some v"
      using evaluateAllPossiblePlacements_total [OF assms] by blast
    then show ?thesis
      by (simp add: totalScore_def Let_def split_beta)
  qed
  then show ?thesis
    by (auto simp: considerTerminal_def)
qed

lemma set_accepted:
  "set (accepted as) =
     {q. \<exists>name v. (name, Some q, v) \<in> set as \<and> (v = None \<or> v = Some True)}"
proof (induction as)
  case Nil
  show ?case by (simp add: accepted_def)
next
  case (Cons a as)
  obtain name np v where a: "a = (name, np, v)" by (cases a) auto
  have "set (accepted (a # as)) =
        (case np of None \<Rightarrow> {} | Some q \<Rightarrow> if v = None \<or> v = Some True then {q} else {})
        \<union> set (accepted as)"
    by (auto simp: accepted_def a split: option.splits)
  also have "\<dots> = {q. \<exists>name' v'. (name', Some q, v') \<in> set (a # as) \<and>
                      (v' = None \<or> v' = Some True)}"
    unfolding Cons.IH by (auto simp: a split: option.splits)
  finally show ?case .
qed

lemma enqueue_cases:
  "enqueue pth a st = st \<or>
   (\<exists>np name. np \<in> set (accepted [a]) \<and> getPieceKey np \<notin> visited st \<and>
      enqueue pth a st = st\<lparr>visited := insert (getPieceKey np) (visited st),
                              queue := queue st @ [(np, pth @ [name])]\<rparr>)"
  by (cases a) (auto simp: enqueue_def set_accepted split: option.splits)

lemma fold_enqueue:
  "visited st \<subseteq> visited (fold (enqueue pth) as st)
   \<and> visited (fold (enqueue pth) as st) \<subseteq> visited st \<union> getPieceKey ` set (accepted as)
   \<and> fst ` set (queue (fold (enqueue pth) as st)) \<subseteq> fst ` set (queue st) \<union> set (accepted as)
   \<and> (visited (fold (enqueue pth) as st) = visited st \<longrightarrow>
        queue (fold (enqueue pth) as st) = queue st)"
proof (induction as arbitrary: st)
  case Nil
  show ?case by simp
next
  case (Cons a as)
  let ?st1 = "enqueue pth a st"
  let ?st2 = "fold (enqueue pth) as ?st1"
  have f: "fold (enqueue pth) (a # as) st = ?st2" by simp
  from Cons.IH [of ?st1] have
    i1: "visited ?st1 \<subseteq> visited ?st2" and
    i2: "visited ?st2 \<subseteq> visited ?st1 \<union> getPieceKey ` set (accepted as)" and
    i3: "fst ` set (queue ?st2) \<subseteq> fst ` set (queue ?st1) \<union> set (accepted as)" and
    i4: "visited ?st2 = visited ?st1 \<longrightarrow> queue ?st2 = queue ?st1"
    by blast+
  have acc1: "set (accepted [a]) \<subseteq> set (accepted (a # as))"
    and acc2: "set (accepted as) \<subseteq> set (accepted (a # as))"
    by (auto simp: set_accepted)
  have k1: "getPieceKey ` set (accepted [a]) \<subseteq> getPieceKey ` set (accepted (a # as))"
    using acc1 by (rule image_mono)
  have k2: "getPieceKey ` set (accepted as) \<subseteq> getPieceKey ` set (accepted (a # as))"
    using acc2 by (rule image_mono)
  from enqueue_cases [of pth a st] show ?case
  proof
    assume e: "?st1 = st"
    have "visited st \<subseteq> visited ?st2" using i1 e by simp
    moreover have "visited ?st2 \<subseteq> visited st \<union> getPieceKey ` set (accepted (a # as))"
      using i2 k2 e by auto
    moreover have "fst ` set (queue ?st2) \<subseteq> fst ` set (queue st) \<union> set (accepted (a # as))"
      using i3 acc2 e by auto
    moreover have "visited ?st2 = visited st \<longrightarrow> queue ?st2 = queue st"
      using i4 e by simp
    ultimately show ?thesis unfolding f by blast
  next
    assume "\<exists>np name. np \<in> set (accepted [a]) \<and> getPieceKey np \<notin> visited st \<and>
      ?st1 = st\<lparr>visited := insert (getPieceKey np) (visited st),
                  queue := queue st @ [(np, pth @ [name])]\<rparr>"
    then obtain np name where np: "np \<in> set (accepted [a])" "getPieceKey np \<notin> visited st"
      and e: "?st1 = st\<lparr>visited := insert (getPieceKey np) (visited st),
                  queue := queue st @ [(np, pth @ [name])]\<rparr>" by blast
    have v1: "visited ?st1 = insert (getPieceKey np) (visited st)"
      and q1: "queue ?st1 = queue st @ [(np, pth @ [name])]"
      by (simp_all add: e)
    have npk: "getPieceKey np \<in> getPieceKey ` set (accepted (a # as))"
      using np(1) k1 by blast
    have npa: "np \<in> set (accepted (a # as))" using np(1) acc1 by blast
    have a: "visited st \<subseteq> visited ?st2"
      using i1 unfolding v1 by blast
    have b: "visited ?st2 \<subseteq> visited st \<union> getPieceKey ` set (accepted (a # as))"
      using i2 k2 npk unfolding v1 by blast
    have c: "fst ` set (queue ?st2) \<subseteq> fst ` set (queue st) \<union> set (accepted (a # as))"
    proof
      fix x assume "x \<in> fst ` set (queue ?st2)"
      with i3 have "x \<in> fst ` set (queue ?st1) \<or> x \<in> set (accepted as)" by blast
      then show "x \<in> fst ` set (queue st) \<union> set (accepted (a # as))"
        using acc2 npa unfolding q1 by auto
    qed
    have "getPieceKey np \<in> visited ?st2" using i1 unfolding v1 by blast
    with np(2) have d: "visited ?st2 \<noteq> visited st" by blast
    from a b c d show ?thesis unfolding f by blast
  qed
qed

lemma bfsStep_total:
  assumes "case nx of None \<Rightarrow> True | Some t \<Rightarrow> shapesNonempty tb t"
  shows "\<exists>st'. bfsStep tb g nx s w d n st = Some st' \<and>
           visited st \<subseteq> visited st' \<and>
           visited st' \<subseteq> visited st \<union> getPieceKey ` set (successors tb g (fst n)) \<and>
           fst ` set (queue st') \<subseteq> fst ` set (queue st) \<union> set (successors tb g (fst n)) \<and>
           (visited st' = visited st \<longrightarrow> queue st' = queue st)"
proof -
  from considerTerminal_total [OF assms, of g s w d n st]
  obtain st0 where st0: "considerTerminal tb g nx s w d n st = Some st0"
    "queue st0 = queue st" "visited st0 = visited st" by blast
  then have "bfsStep tb g nx s w d n st = Some (fold (enqueue (snd n)) (actions tb g (fst n)) st0)"
    by (simp add: bfsStep_def)
  with fold_enqueue [of st0 "snd n" "actions tb g (fst n)"] st0(2,3)
  show ?thesis by (simp add: successors_def)
qed

lemma bfs_terminates_region:
  assumes fin: "finite R"
      and nx: "case nx of None \<Rightarrow> True | Some t \<Rightarrow> shapesNonempty tb t"
      and closed: "\<And>p np. good p \<Longrightarrow> np \<in> set (successors tb g p) \<Longrightarrow>
                     good np \<and> getPieceKey np \<in> R"
      and vis0: "visited st0 \<subseteq> R" and gd0: "\<forall>n \<in> set (queue st0). good (fst n)"
  shows "\<exists>y. bfs tb g nx s w d st0 = Some y"
proof -
  define rel where "rel = inv_image (measure (\<lambda>V. card (R - V)) <*lex*> measure length)
                  (\<lambda>st :: search. (visited st, queue st))"
  have wf: "wf rel"
    unfolding rel_def by (intro wf_inv_image wf_lex_prod wf_measure)
  have "visited st \<subseteq> R \<longrightarrow> (\<forall>n \<in> set (queue st). good (fst n)) \<longrightarrow>
        (\<exists>y. bfs tb g nx s w d st = Some y)" for st
  proof (rule wf_induct [OF wf, where a = st])
    fix st
    assume IH: "\<forall>st'. (st', st) \<in> rel \<longrightarrow>
              visited st' \<subseteq> R \<longrightarrow> (\<forall>n \<in> set (queue st'). good (fst n)) \<longrightarrow>
              (\<exists>y. bfs tb g nx s w d st' = Some y)"
    show "visited st \<subseteq> R \<longrightarrow> (\<forall>n \<in> set (queue st). good (fst n)) \<longrightarrow>
        (\<exists>y. bfs tb g nx s w d st = Some y)"
    proof (intro impI)
      assume vis: "visited st \<subseteq> R" and gd: "\<forall>n \<in> set (queue st). good (fst n)"
      show "\<exists>y. bfs tb g nx s w d st = Some y"
      proof (cases "queue st")
        case Nil
        then show ?thesis by (subst bfs.simps) simp
      next
        case (Cons n rest)
        let ?st0 = "st\<lparr>queue := rest\<rparr>"
        from bfsStep_total [OF nx, of g s w d n ?st0]
        obtain st' where st': "bfsStep tb g nx s w d n ?st0 = Some st'"
          and v1: "visited st \<subseteq> visited st'"
          and v2: "visited st' \<subseteq> visited st \<union> getPieceKey ` set (successors tb g (fst n))"
          and q1: "fst ` set (queue st') \<subseteq> fst ` set rest \<union> set (successors tb g (fst n))"
          and q2: "visited st' = visited st \<longrightarrow> queue st' = rest"
          by auto
        from gd Cons have gn: "good (fst n)" and gr: "\<forall>m \<in> set rest. good (fst m)" by auto
        have vis': "visited st' \<subseteq> R" using v2 vis closed [OF gn] by auto
        have gd': "\<forall>m \<in> set (queue st'). good (fst m)"
        proof
          fix m assume "m \<in> set (queue st')"
          then have "fst m \<in> fst ` set rest \<union> set (successors tb g (fst n))"
            using q1 by auto
          then show "good (fst m)" using gr closed [OF gn] by auto
        qed
        have "(st', st) \<in> rel"
        proof (cases "visited st' = visited st")
          case True
          with q2 Cons show ?thesis by (simp add: rel_def)
        next
          case False
          with v1 have "visited st \<subset> visited st'" by blast
          with vis' have "R - visited st' \<subset> R - visited st" by blast
          moreover have "finite (R - visited st)" using fin by simp
          ultimately have "card (R - visited st') < card (R - visited st)"
            by (rule psubset_card_mono [rotated])
          then show ?thesis by (simp add: rel_def)
        qed
        with IH vis' gd' obtain y where "bfs tb g nx s w d st' = Some y" by blast
        with st' Cons show ?thesis by (subst bfs.simps) simp
      qed
    qed
  qed
  with vis0 gd0 show ?thesis by blast
qed

lemma successors_cases:
  assumes "np \<in> set (successors tb g p)"
  shows "(np = p\<lparr>px := px p - 1\<rparr> \<and> \<not> collidesWithGrid tb g p (- 1) 0 0)
       \<or> (np = p\<lparr>px := px p + 1\<rparr> \<and> \<not> collidesWithGrid tb g p 1 0 0)
       \<or> (np = p\<lparr>py := py p + 1\<rparr> \<and> \<not> collidesWithGrid tb g p 0 1 0)
       \<or> simulateRotation tb g p ''R'' = Some np
       \<or> simulateRotation tb g p ''L'' = Some np"
  using assms unfolding successors_def set_accepted actions_def by auto

lemma simulateRotation_Some:
  assumes "simulateRotation tb g p direction = Some np"
  shows "ptype p \<noteq> 3 \<and>
         (\<exists>test. find (\<lambda>test. \<not> collidesWithGrid tb g p (fst test) (snd test)
                                  (rotationDelta direction))
                     (srsTests tb p direction) = Some test \<and>
                 np = p\<lparr>px := px p + fst test, py := py p + snd test,
                         rotation := (rotation p + rotationDelta direction) mod 4\<rparr>)"
  using assms by (auto simp: simulateRotation_def Let_def split: if_splits option.splits)

lemma collides_moved:
  "collidesWithGrid tb g (p\<lparr>px := px p + dx, py := py p + dy,
                              rotation := (rotation p + r) mod 4\<rparr>) 0 0 0
   = collidesWithGrid tb g p dx dy r"
  by (simp add: collidesWithGrid_def)

lemma collides_shift_x:
  "collidesWithGrid tb g (p\<lparr>px := px p + dx\<rparr>) 0 0 0 = collidesWithGrid tb g p dx 0 0"
  by (simp add: collidesWithGrid_def)

lemma collides_shift_y:
  "collidesWithGrid tb g (p\<lparr>py := py p + dy\<rparr>) 0 0 0 = collidesWithGrid tb g p 0 dy 0"
  by (simp add: collidesWithGrid_def)

lemma srsTests_kickTests: "srsTests tb p direction = kickTests tb (ptype p) (rotation p) direction"
  by (simp add: srsTests_def kickTests_def)

lemma free_piece_bounds:
  assumes "\<not> collidesWithGrid tb g p 0 0 0" "rotation p < 4" "shapesNonempty tb (ptype p)"
  shows "- cellBound tb (ptype p) \<le> px p \<and> px p \<le> 9 + cellBound tb (ptype p) \<and>
         py p \<le> 23 + cellBound tb (ptype p) \<and>
         \<not> wallHit (blockCoords tb (ptype p) ! rotation p) (px p)"
proof -
  let ?cs = "blockCoords tb (ptype p) ! rotation p"
  have "\<not> cellsCollide g (px p) (Some (py p)) ?cs"
    using assms(1,2) by (simp add: collidesWithGrid_def)
  moreover have "?cs \<noteq> []" using assms(2,3) by (simp add: shapesNonempty_def)
  moreover have "\<forall>c \<in> set ?cs. \<bar>fst c\<bar> \<le> cellBound tb (ptype p) \<and>
                                  \<bar>snd c\<bar> \<le> cellBound tb (ptype p)"
    using cellBound_ge [OF assms(2)] by blast
  ultimately show ?thesis by (rule cellsCollide_free_bounds)
qed

lemma rotation_at_altitude:
  assumes safe: "kicksSafe tb (ptype p)" and rot: "rotation p < 4"
      and ne: "shapesNonempty tb (ptype p)"
      and free: "\<not> collidesWithGrid tb g p 0 0 0"
      and high: "py p < - (cellBound tb (ptype p) + kickBound tb (ptype p))"
      and dir: "direction = ''R'' \<or> direction = ''L''"
      and sim: "simulateRotation tb g p direction = Some np"
  shows "py p \<le> py np"
proof -
  let ?t = "ptype p"
  let ?tests = "kickTests tb ?t (rotation p) direction"
  let ?ts = "blockCoords tb ?t ! ((rotation p + rotationDelta direction) mod 4)"
  from simulateRotation_Some [OF sim] obtain test where
    t3: "?t \<noteq> 3" and
    fnd: "find (\<lambda>test. \<not> collidesWithGrid tb g p (fst test) (snd test)
                                  (rotationDelta direction)) ?tests = Some test" and
    np: "np = p\<lparr>px := px p + fst test, py := py p + snd test,
                  rotation := (rotation p + rotationDelta direction) mod 4\<rparr>"
    unfolding srsTests_kickTests by blast
  have eq: "(\<not> collidesWithGrid tb g p (fst c) (snd c) (rotationDelta direction)) =
            (\<not> wallHit ?ts (px p + fst c))" if c: "c \<in> set ?tests" for c
  proof -
    have kb: "\<bar>snd c\<bar> \<le> kickBound tb ?t" using kickBound_ge [OF rot dir c] .
    have "\<forall>e \<in> set ?ts. py p + snd c + snd e < 0"
    proof
      fix e assume "e \<in> set ?ts"
      then have "\<bar>snd e\<bar> \<le> cellBound tb ?t"
        using cellBound_ge [of "(rotation p + rotationDelta direction) mod 4" e tb ?t] by simp
      with kb high show "py p + snd c + snd e < 0" by linarith
    qed
    then show ?thesis
      unfolding collidesWithGrid_def by (simp add: cellsCollide_altitude)
  qed
  have fnd': "find (\<lambda>test. \<not> wallHit ?ts (px p + fst test)) ?tests = Some test"
    using fnd eq by (simp cong: find_cong)
  from free_piece_bounds [OF free rot ne] have
    x: "px p \<in> set [- cellBound tb ?t .. 9 + cellBound tb ?t]" and
    nw: "\<not> wallHit (blockCoords tb ?t ! rotation p) (px p)" by auto
  have r: "rotation p \<in> set [0..<4]" using rot by simp
  have d: "direction \<in> set [''R'', ''L'']" using dir by auto
  from safe t3 r d x nw have
    "case find (\<lambda>test. \<not> wallHit ?ts (px p + fst test)) ?tests of
       None \<Rightarrow> True | Some test \<Rightarrow> 0 \<le> snd test"
    unfolding kicksSafe_def by blast
  with fnd' have "0 \<le> snd test" by simp
  with np show ?thesis by simp
qed

lemma rotation_kick_bound:
  assumes rot: "rotation p < 4"
      and dir: "direction = ''R'' \<or> direction = ''L''"
      and sim: "simulateRotation tb g p direction = Some np"
  shows "py p - kickBound tb (ptype p) \<le> py np \<and> ptype np = ptype p \<and> rotation np < 4 \<and>
         \<not> collidesWithGrid tb g np 0 0 0"
proof -
  from simulateRotation_Some [OF sim] obtain test where
    fnd: "find (\<lambda>test. \<not> collidesWithGrid tb g p (fst test) (snd test)
                                  (rotationDelta direction))
               (kickTests tb (ptype p) (rotation p) direction) = Some test" and
    np: "np = p\<lparr>px := px p + fst test, py := py p + snd test,
                  rotation := (rotation p + rotationDelta direction) mod 4\<rparr>"
    unfolding srsTests_kickTests by blast
  from fnd have mem: "test \<in> set (kickTests tb (ptype p) (rotation p) direction)"
    and nc: "\<not> collidesWithGrid tb g p (fst test) (snd test) (rotationDelta direction)"
    by (auto simp: find_Some_iff)
  have "\<bar>snd test\<bar> \<le> kickBound tb (ptype p)" using kickBound_ge [OF rot dir mem] .
  moreover have "\<not> collidesWithGrid tb g np 0 0 0"
    unfolding np collides_moved using nc .
  ultimately show ?thesis using np by auto
qed

lemma bfs_terminates:
  assumes rot0: "rotation p0 < 4"
      and ne: "shapesNonempty tb (ptype p0)"
      and safe: "kicksSafe tb (ptype p0)"
      and nx: "case nx of None \<Rightarrow> True | Some t \<Rightarrow> shapesNonempty tb t"
  shows "\<exists>y. bfs tb g nx s w d (initialSearch p0) = Some y"
proof -
  define t where "t = ptype p0"
  define B where "B = cellBound tb t"
  define D where "D = kickBound tb t"
  define L where "L = min (py p0) (- (B + D)) - D"
  define good where "good = (\<lambda>p. ptype p = t \<and> rotation p < 4 \<and>
      (p = p0 \<or> (\<not> collidesWithGrid tb g p 0 0 0 \<and> L \<le> py p)))"
  define R where "R = ({- B .. 9 + B} \<times> {L .. 23 + B} \<times> {..<4::nat}) \<union> {getPieceKey p0}"
  have D0: "0 \<le> D" unfolding D_def kickBound_def by (rule foldr_max_nonneg)
  have L0: "L \<le> py p0" unfolding L_def using D0 by simp
  have fin: "finite R" unfolding R_def by simp
  have step: "good np \<and> getPieceKey np \<in> R"
    if gp: "good p" and su: "np \<in> set (successors tb g p)" for p np
  proof -
    from gp have tp: "ptype p = t" and rp: "rotation p < 4"
      and pc: "p = p0 \<or> (\<not> collidesWithGrid tb g p 0 0 0 \<and> L \<le> py p)"
      by (simp_all add: good_def)
    have nep: "shapesNonempty tb (ptype p)" using ne tp t_def by simp
    have safep: "kicksSafe tb (ptype p)" using safe tp t_def by simp
    have Lp: "L \<le> py p" using pc L0 by auto
    have rotcase: "ptype np = t \<and> rotation np < 4 \<and> \<not> collidesWithGrid tb g np 0 0 0 \<and>
                   L \<le> py np"
      if dir: "direction = ''R'' \<or> direction = ''L''"
        and sim: "simulateRotation tb g p direction = Some np" for direction
    proof -
      from rotation_kick_bound [OF rp dir sim] have
        kb: "py p - D \<le> py np" and tn: "ptype np = t" and rn: "rotation np < 4"
        and fr: "\<not> collidesWithGrid tb g np 0 0 0"
        by (simp_all add: tp D_def)
      have "L \<le> py np"
      proof (cases "p = p0")
        case True
        with kb show ?thesis unfolding L_def by simp
      next
        case False
        with pc have free: "\<not> collidesWithGrid tb g p 0 0 0" by simp
        show ?thesis
        proof (cases "py p < - (B + D)")
          case True
          then have "py p < - (cellBound tb (ptype p) + kickBound tb (ptype p))"
            by (simp add: B_def D_def tp)
          from rotation_at_altitude [OF safep rp nep free this dir sim] Lp
          show ?thesis by simp
        next
          case False
          with kb show ?thesis unfolding L_def by simp
        qed
      qed
      with tn rn fr show ?thesis by simp
    qed
    from successors_cases [OF su]
    have core: "ptype np = t \<and> rotation np < 4 \<and> \<not> collidesWithGrid tb g np 0 0 0 \<and> L \<le> py np"
    proof (elim disjE conjE)
      assume e: "np = p\<lparr>px := px p - 1\<rparr>" and c: "\<not> collidesWithGrid tb g p (- 1) 0 0"
      have "\<not> collidesWithGrid tb g np 0 0 0"
        using c collides_shift_x [of tb g p "- 1"] unfolding e by simp
      then show ?thesis using e tp rp Lp by simp
    next
      assume e: "np = p\<lparr>px := px p + 1\<rparr>" and c: "\<not> collidesWithGrid tb g p 1 0 0"
      have "\<not> collidesWithGrid tb g np 0 0 0"
        using c collides_shift_x [of tb g p 1] unfolding e by simp
      then show ?thesis using e tp rp Lp by simp
    next
      assume e: "np = p\<lparr>py := py p + 1\<rparr>" and c: "\<not> collidesWithGrid tb g p 0 1 0"
      have "\<not> collidesWithGrid tb g np 0 0 0"
        using c collides_shift_y [of tb g p 1] unfolding e by simp
      then show ?thesis using e tp rp Lp by simp
    next
      assume "simulateRotation tb g p ''R'' = Some np"
      then show ?thesis using rotcase [of "''R''"] by simp
    next
      assume "simulateRotation tb g p ''L'' = Some np"
      then show ?thesis using rotcase [of "''L''"] by simp
    qed
    then have gn: "good np" by (simp add: good_def)
    from core have "shapesNonempty tb (ptype np)" using ne t_def by simp
    with core free_piece_bounds [of tb g np] have
      "- B \<le> px np \<and> px np \<le> 9 + B \<and> py np \<le> 23 + B"
      by (simp add: B_def)
    with core have "getPieceKey np \<in> R" by (simp add: R_def getPieceKey_def)
    with gn show ?thesis by simp
  qed
  show ?thesis
  proof (rule bfs_terminates_region [OF fin nx step])
    show "visited (initialSearch p0) \<subseteq> R" by (simp add: initialSearch_def R_def)
    show "\<forall>n \<in> set (queue (initialSearch p0)). good (fst n)"
      using rot0 by (simp add: initialSearch_def good_def t_def)
  qed
qed

lemma enqueue_marks_visited:
  "enqueue pth a st = st \<or>
   (\<exists>np name. getPieceKey np \<notin> visited st \<and>
      enqueue pth a st = st\<lparr>visited := insert (getPieceKey np) (visited st),
                              queue := queue st @ [(np, pth @ [name])]\<rparr>)"
  using enqueue_cases [of pth a st] by blast

lemma successors_free:
  assumes "np \<in> set (successors tb g p)"
  shows "\<not> collidesWithGrid tb g np 0 0 0"
  using successors_cases [OF assms]
proof (elim disjE conjE)
  assume "np = p\<lparr>px := px p - 1\<rparr>" "\<not> collidesWithGrid tb g p (- 1) 0 0"
  then show ?thesis using collides_shift_x [of tb g p "- 1"] by simp
next
  assume "np = p\<lparr>px := px p + 1\<rparr>" "\<not> collidesWithGrid tb g p 1 0 0"
  then show ?thesis using collides_shift_x [of tb g p 1] by simp
next
  assume "np = p\<lparr>py := py p + 1\<rparr>" "\<not> collidesWithGrid tb g p 0 1 0"
  then show ?thesis using collides_shift_y [of tb g p 1] by simp
next
  assume "simulateRotation tb g p ''R'' = Some np"
  from simulateRotation_Some [OF this] obtain test where
    fnd: "find (\<lambda>test. \<not> collidesWithGrid tb g p (fst test) (snd test)
                                  (rotationDelta ''R''))
               (srsTests tb p ''R'') = Some test" and
    np: "np = p\<lparr>px := px p + fst test, py := py p + snd test,
                  rotation := (rotation p + rotationDelta ''R'') mod 4\<rparr>"
    by blast
  from fnd have "\<not> collidesWithGrid tb g p (fst test) (snd test) (rotationDelta ''R'')"
    by (auto simp: find_Some_iff)
  then show ?thesis unfolding np collides_moved .
next
  assume "simulateRotation tb g p ''L'' = Some np"
  from simulateRotation_Some [OF this] obtain test where
    fnd: "find (\<lambda>test. \<not> collidesWithGrid tb g p (fst test) (snd test)
                                  (rotationDelta ''L''))
               (srsTests tb p ''L'') = Some test" and
    np: "np = p\<lparr>px := px p + fst test, py := py p + snd test,
                  rotation := (rotation p + rotationDelta ''L'') mod 4\<rparr>"
    by blast
  from fnd have "\<not> collidesWithGrid tb g p (fst test) (snd test) (rotationDelta ''L'')"
    by (auto simp: find_Some_iff)
  then show ?thesis unfolding np collides_moved .
qed

lemma sampleTables_ok:
  "shapesNonempty sampleTables 0 \<and> shapesNonempty sampleTables 5 \<and> kicksSafe sampleTables 5"
  by code_simp

text \<open>
  C9. \<open>findBestMove\<close> returns, for every grid, active piece (with a rotation state in
  0..3), next piece, strategy, weight vector and drought count, when the shapes of the
  two kinds have a cell and the kicks of the active kind satisfy \<open>kicksSafe\<close>. The
  enqueueing step adds a pose only when its key is not in the visited set and then puts
  the key there, so no pose is enqueued twice; and every pose that an action enqueues
  does not collide (the initial pose is enqueued as it is given).
\<close>

theorem findBestMove_terminates:
  assumes "case Block state of
             None \<Rightarrow> True
           | Some p \<Rightarrow> rotation p < 4 \<and> shapesNonempty tb (ptype p) \<and> kicksSafe tb (ptype p)"
      and "case Next state of None \<Rightarrow> True | Some t \<Rightarrow> shapesNonempty tb t"
  shows "(\<exists>res. findBestMove tb state strategy w = Some res)
       \<and> (\<forall>pth a st. enqueue pth a st = st \<or>
            (\<exists>np name. getPieceKey np \<notin> visited st \<and>
               enqueue pth a st = st\<lparr>visited := insert (getPieceKey np) (visited st),
                                       queue := queue st @ [(np, pth @ [name])]\<rparr>))
       \<and> (\<forall>p np. np \<in> set (successors tb (grid state) p) \<longrightarrow>
            \<not> collidesWithGrid tb (grid state) np 0 0 0)"
proof -
  have "\<exists>res. findBestMove tb state strategy w = Some res"
  proof (cases "Block state")
    case None
    then show ?thesis by (simp add: findBestMove_def)
  next
    case (Some p)
    with assms(1) have "rotation p < 4" "shapesNonempty tb (ptype p)" "kicksSafe tb (ptype p)"
      by simp_all
    from bfs_terminates [OF this assms(2)] obtain y where
      "bfs tb (grid state) (Next state) (effectiveStrategy (grid state) strategy) w
         (iPieceDrought state) (initialSearch p) = Some y" by blast
    with Some show ?thesis by (simp add: findBestMove_def)
  qed
  then show ?thesis
    using enqueue_marks_visited successors_free by blast
qed

theorem findBestMove_terminates_witness:
  "\<exists>res. findBestMove sampleTables
     \<lparr>grid = createEmptyGrid, Block = Some \<lparr>ptype = 5, rotation = 0, px = 3, py = 2\<rparr>,
      Next = Some 0, iPieceDrought = 0\<rparr> ''rightWell'' BASE_WELL_WEIGHTS = Some res"
  using findBestMove_terminates [where tb = sampleTables and strategy = "''rightWell''"
      and w = BASE_WELL_WEIGHTS and state =
      "\<lparr>grid = createEmptyGrid, Block = Some \<lparr>ptype = 5, rotation = 0, px = 3, py = 2\<rparr>,
        Next = Some 0, iPieceDrought = 0\<rparr>"]
    sampleTables_ok
  by simp

end
